theory Spec2Isabelle
  imports Complex_Main "HOL-Library.Sublist"
begin

section \<open>Python string primitives used by the service\<close>

text \<open>
  Python \<^verbatim>\<open>str\<close> values are modelled as \<^typ>\<open>string\<close>. \<^verbatim>\<open>str.strip()\<close> without
  arguments removes the characters for which \<^verbatim>\<open>str.isspace\<close> holds; below code point
  256 these are TAB, LF, VT, FF, CR, FS, GS, RS, US, SPACE, NEL and NBSP.
\<close>

definition isspace :: "char \<Rightarrow> bool" where
  "isspace c = (c \<in> set [CHR 0x09, CHR 0x0A, CHR 0x0B, CHR 0x0C, CHR 0x0D,
                          CHR 0x1C, CHR 0x1D, CHR 0x1E, CHR 0x1F, CHR 0x20,
                          CHR 0x85, CHR 0xA0])"

definition lstrip :: "string \<Rightarrow> string" where
  "lstrip s = dropWhile isspace s"

definition rstrip :: "string \<Rightarrow> string" where
  "rstrip s = rev (dropWhile isspace (rev s))"

definition strip :: "string \<Rightarrow> string" where
  "strip s = rstrip (lstrip s)"

text \<open>Splitting a text at every line feed, and joining lines with a line feed.\<close>

fun split_nl :: "string \<Rightarrow> string list" where
  "split_nl [] = [[]]"
| "split_nl (c # cs) =
     (if c = CHR 0x0A then [] # split_nl cs
      else (case split_nl cs of [] \<Rightarrow> [[c]] | l # ls \<Rightarrow> (c # l) # ls))"

fun join_nl :: "string list \<Rightarrow> string" where
  "join_nl [] = []"
| "join_nl [l] = l"
| "join_nl (l # ls) = l @ CHR 0x0A # join_nl ls"

text \<open>
  \<^verbatim>\<open>s.replace(old, "")\<close> for a non-empty \<^verbatim>\<open>old\<close>: the non-overlapping occurrences
  are deleted from left to right.
\<close>

function str_remove :: "string \<Rightarrow> string \<Rightarrow> string" where
  "str_remove old s =
     (if old \<noteq> [] \<and> prefix old s then str_remove old (drop (length old) s)
      else (case s of [] \<Rightarrow> [] | c # cs \<Rightarrow> c # str_remove old cs))"
  by pat_completeness auto
termination
  by (relation "measure (\<lambda>(old, s). length s)") (auto simp: prefix_def)

declare str_remove.simps [simp del]

section \<open>Code Sanitizer: \<^verbatim>\<open>AgenticAnalyst._clean_code\<close>\<close>

text \<open>
  The source takes the first element of
  \<^verbatim>\<open>re.findall(r'```(?:python|py)?\n(.*?)```', code, re.DOTALL)\<close>.
  A match at a position needs the opening fence, then \<^verbatim>\<open>python\<close>, \<^verbatim>\<open>py\<close> or
  nothing, directly followed by a line feed (\<open>fence_open\<close>), then the shortest text up to
  the next fence (\<open>until_fence\<close>). \<open>findall_first\<close> scans the start positions from the
  left and returns the captured group of the first match, \<open>None\<close> when the list of matches
  is empty.
\<close>

fun until_fence :: "string \<Rightarrow> string option" where
  "until_fence [] = None"
| "until_fence (c # cs) =
     (if prefix ''```'' (c # cs) then Some []
      else map_option (Cons c) (until_fence cs))"

definition fence_open :: "string \<Rightarrow> string option" where
  "fence_open s =
     (if prefix ''```'' s then
        (let r = drop 3 s in
         if prefix (''python'' @ [CHR 0x0A]) r then Some (drop 7 r)
         else if prefix (''py'' @ [CHR 0x0A]) r then Some (drop 3 r)
         else if prefix [CHR 0x0A] r then Some (drop 1 r)
         else None)
      else None)"

definition fence_match_at :: "string \<Rightarrow> string option" where
  "fence_match_at s = (case fence_open s of None \<Rightarrow> None | Some body \<Rightarrow> until_fence body)"

fun findall_first :: "string \<Rightarrow> string option" where
  "findall_first [] = None"
| "findall_first (c # cs) =
     (case fence_match_at (c # cs) of Some g \<Rightarrow> Some g | None \<Rightarrow> findall_first cs)"

text \<open>
  The line scan of \<^verbatim>\<open>_clean_code\<close>: \<^verbatim>\<open>stripped.startswith((...))\<close> on the tuple of
  conversational openers, the list of code tokens, and \<^verbatim>\<open>'=' in stripped\<close>.
  \<open>find_code_start i lines\<close> is the \<^verbatim>\<open>for i, line in enumerate(lines)\<close> loop with its
  \<^verbatim>\<open>break\<close>; \<^verbatim>\<open>code_start\<close> keeps its initial value 0 when no line qualifies.
\<close>

definition conversational :: "string \<Rightarrow> bool" where
  "conversational s =
     list_ex (\<lambda>p. prefix p s)
       [''Here'', ''Let'', ''Okay'', ''I '', ''The '', ''This '', ''We '', ''Now '']"

definition code_token :: "string \<Rightarrow> bool" where
  "code_token s =
     list_ex (\<lambda>p. prefix p s)
       [''import '', ''from '', ''def '', ''#'', ''class '', ''if '', ''for '',
        ''while '', ''try:'', ''with '']"

definition looks_like_code :: "string \<Rightarrow> bool" where
  "looks_like_code line =
     (let stripped = strip line
      in stripped \<noteq> [] \<and> \<not> conversational stripped \<and>
         (code_token stripped \<or> CHR ''='' \<in> set stripped))"

fun find_code_start :: "nat \<Rightarrow> string list \<Rightarrow> nat" where
  "find_code_start i [] = 0"
| "find_code_start i (line # lines) =
     (if looks_like_code line then i else find_code_start (Suc i) lines)"

text \<open>
  The two stages of \<^verbatim>\<open>_clean_code\<close>: the \<^verbatim>\<open>if "```" in code\<close> block
  (\<open>strip_fences\<close>), and the removal of conversational text before the code followed by
  the final \<^verbatim>\<open>code.strip()\<close> (\<open>drop_preamble\<close>).
\<close>

definition strip_fences :: "string \<Rightarrow> string" where
  "strip_fences code =
     (if sublist ''```'' code then
        (case findall_first code of
           Some m \<Rightarrow> strip m
         | None \<Rightarrow> strip (str_remove ''```'' (str_remove ''```py'' (str_remove ''```python'' code))))
      else code)"

definition drop_preamble :: "string \<Rightarrow> string" where
  "drop_preamble code =
     (let lines = split_nl code;
          code_start = find_code_start 0 lines
      in strip (if code_start > 0 then join_nl (drop code_start lines) else code))"

definition clean_code :: "string \<Rightarrow> string" where
  "clean_code code = drop_preamble (strip_fences code)"

section \<open>Runtime values\<close>

text \<open>
  The Python values that the service handles, one constructor per case that
  \<^verbatim>\<open>_serialize_result\<close> tells apart with \<^verbatim>\<open>isinstance\<close>. A
  \<^verbatim>\<open>pandas.DataFrame\<close> is its list of column labels (any values) and its list of rows,
  every row holding one cell per column and a missing cell being \<open>NaNV\<close>; a
  \<^verbatim>\<open>pandas.Series\<close> is its list of (index label, value) pairs. A float carries its
  mantissa and binary exponent; no float arithmetic is modelled. The numpy scalars and
  arrays (\<open>NpIntegerV\<close>, \<open>NpFloatingV\<close>, \<open>NdArrayV\<close>) are opaque objects named by a tag:
  what \<^verbatim>\<open>int()\<close>, \<^verbatim>\<open>float()\<close> and \<^verbatim>\<open>.tolist()\<close> make of them is a parameter of the
  model. \<open>ObjectV\<close> stands for any other object (a module, a builtin function, a tuple, a
  timestamp, ...), named by a tag.
\<close>

datatype pyval =
    NoneV
  | NaNV
  | BoolV bool
  | IntV int
  | FloatV int int
  | StrV string
  | NpIntegerV string
  | NpFloatingV string
  | NdArrayV string
  | ListV "pyval list"
  | DictV "(pyval \<times> pyval) list"
  | DataFrameV "pyval list" "pyval list list"
  | SeriesV "(pyval \<times> pyval) list"
  | ObjectV string

text \<open>
  A Python \<^verbatim>\<open>dict\<close> keeps its keys in insertion order; assigning to an existing key
  replaces the value in place. \<open>dict_of\<close> is \<^verbatim>\<open>dict(pairs)\<close>.
\<close>

fun dict_set :: "'k \<Rightarrow> 'v \<Rightarrow> ('k \<times> 'v) list \<Rightarrow> ('k \<times> 'v) list" where
  "dict_set k v [] = [(k, v)]"
| "dict_set k v ((k', v') # kvs) =
     (if k = k' then (k, v) # kvs else (k', v') # dict_set k v kvs)"

definition dict_of :: "('k \<times> 'v) list \<Rightarrow> ('k \<times> 'v) list" where
  "dict_of kvs = foldl (\<lambda>d (k, v). dict_set k v d) [] kvs"

definition dict_keys :: "('k \<times> 'v) list \<Rightarrow> 'k list" where
  "dict_keys d = map fst d"

text \<open>Reading the entry of a text key from a dict value.\<close>

fun field :: "pyval \<Rightarrow> string \<Rightarrow> pyval option" where
  "field (DictV kvs) k = map_of kvs (StrV k)"
| "field v k = None"

section \<open>Exceptions, object store and external collaborators\<close>

text \<open>
  A raised exception is a value. Every handler of the service is
  \<^verbatim>\<open>except Exception\<close>, so the model keeps exactly the distinction they make:
  \<open>Exception m\<close> is an instance of (a subclass of) \<^verbatim>\<open>Exception\<close> whose \<^verbatim>\<open>str()\<close> is
  \<open>m\<close>; \<open>BaseException m\<close> is an instance of \<^verbatim>\<open>BaseException\<close> outside
  \<^verbatim>\<open>Exception\<close> (\<^verbatim>\<open>SystemExit\<close>, \<^verbatim>\<open>KeyboardInterrupt\<close>, ...), which no handler of
  the service catches. The \<^verbatim>\<open>str()\<close> of an exception is taken to return.
\<close>

datatype pyexc = Exception string | BaseException string

text \<open>
  Python objects are mutable and bound by reference. An object lives at a reference of the
  store; a namespace (\<^verbatim>\<open>safe_globals\<close>, \<^verbatim>\<open>exec_globals\<close>) maps names to references, and
  \<^verbatim>\<open>df_dict\<close> is the insertion-ordered dict from normalized sheet names to the
  references of the loaded frames.
\<close>

type_synonym ref = nat

record store =
  objs :: "ref \<Rightarrow> pyval"
  next_ref :: ref

definition alloc :: "pyval \<Rightarrow> store \<Rightarrow> ref \<times> store" where
  "alloc v h = (next_ref h, h\<lparr>objs := (objs h)(next_ref h := v), next_ref := Suc (next_ref h)\<rparr>)"

type_synonym namespace = "string \<rightharpoonup> ref"

type_synonym df_dict = "(string \<times> ref) list"

text \<open>
  The analyst object, with the two attributes that \<^verbatim>\<open>__init__\<close> sets. It is the
  module-level instance \<^verbatim>\<open>agentic_analyst\<close>: like every object of the process it can be
  reached, and changed, by code that runs in the process.
\<close>

record analyst =
  safe_globals :: namespace
  max_attempts :: nat

text \<open>
  What one run of \<^verbatim>\<open>exec(code, exec_globals)\<close> under the two output redirections
  leaves behind: the exception it raised, if any; the namespace after the run (top-level
  assignments of the code rebind names in it); the store and the analyst object after the
  run (the code may mutate any object it reaches); and the two captured output texts.
\<close>

record exec_result =
  raised :: "pyexc option"
  globals_after :: namespace
  store_after :: store
  analyst_after :: analyst
  stdout_text :: string
  stderr_text :: string

type_synonym message = "string \<times> string"

text \<open>
  The collaborators of the service, as parameters of the model:
  \<^item> \<open>ExcelFile p\<close>: the sheet names of the workbook at \<open>p\<close>, or the exception of
    \<^verbatim>\<open>pd.ExcelFile(p)\<close>;
  \<^item> \<open>read_excel p s\<close>: the frame (column labels, rows) read from sheet \<open>s\<close>;
  \<^item> \<open>table_summary df\<close>: the per-table entry that \<^verbatim>\<open>_analyze_dataframes\<close> builds from
    the pandas introspection calls (dtypes, numeric columns, first-column labels);
  \<^item> \<open>json_dumps v\<close>: \<^verbatim>\<open>json.dumps(v, indent=2)\<close>, which raises on a value that is not
    serializable;
  \<^item> \<open>py_str v\<close>: the text that an f-string prints for the value \<open>v\<close>;
  \<^item> \<open>attribute_error v a\<close>: the message of the \<^verbatim>\<open>AttributeError\<close> raised when the
    attribute \<open>a\<close> is read from the object \<open>v\<close> that lacks it;
  \<^item> \<open>np_int x\<close>, \<open>np_float x\<close>, \<open>np_tolist x\<close>: \<^verbatim>\<open>int(x)\<close> and \<^verbatim>\<open>float(x)\<close> of a numpy
    scalar and \<^verbatim>\<open>x.tolist()\<close> of a numpy array, each of which may raise;
  \<^item> \<open>code_generation n msgs t k\<close>: the reply text of the \<open>n\<close>-th call (counted from
    0) of \<^verbatim>\<open>groq_client.code_generation(messages, temperature, max_tokens)\<close>; the call
    number makes the reply free to differ between equal requests. A reply without content
    makes the \<^verbatim>\<open>.strip()\<close> that follows raise, which is one of the exceptions of this
    parameter;
  \<^item> \<open>chat_completion n msgs t k\<close>: likewise for the \<^verbatim>\<open>chat.completions.create\<close> call
    of \<^verbatim>\<open>_generate_explanation\<close>;
  \<^item> \<open>run_exec code ns h a\<close>: the effect of running the code text in namespace \<open>ns\<close>,
    store \<open>h\<close> and with the analyst object \<open>a\<close>;
  \<^item> \<open>format_exc e\<close>: the text of \<^verbatim>\<open>traceback.format_exc()\<close> while \<open>e\<close> is handled.
\<close>

record env =
  ExcelFile :: "string \<Rightarrow> pyexc + string list"
  read_excel :: "string \<Rightarrow> string \<Rightarrow> pyexc + (pyval list \<times> pyval list list)"
  table_summary :: "pyval list \<times> pyval list list \<Rightarrow> pyexc + pyval"
  json_dumps :: "pyval \<Rightarrow> pyexc + string"
  py_str :: "pyval \<Rightarrow> string"
  attribute_error :: "pyval \<Rightarrow> string \<Rightarrow> string"
  np_int :: "string \<Rightarrow> pyexc + int"
  np_float :: "string \<Rightarrow> pyexc + (int \<times> int)"
  np_tolist :: "string \<Rightarrow> pyexc + pyval"
  code_generation :: "nat \<Rightarrow> message list \<Rightarrow> real \<Rightarrow> nat \<Rightarrow> pyexc + string"
  chat_completion :: "nat \<Rightarrow> message list \<Rightarrow> real \<Rightarrow> nat \<Rightarrow> pyexc + string"
  run_exec :: "string \<Rightarrow> namespace \<Rightarrow> store \<Rightarrow> analyst \<Rightarrow> exec_result"
  format_exc :: "pyexc \<Rightarrow> string"

text \<open>
  One entry of the log of \<^verbatim>\<open>exec\<close> calls: the code, and the namespace, store and analyst
  object that the run starts from.
\<close>

record exec_call =
  call_code :: string
  call_globals :: namespace
  call_store :: store
  call_self :: analyst

text \<open>
  The state threaded through a request: the analyst object, the object store, and the log
  of the calls made to the collaborators (the messages and temperature of every
  code-generation call, every \<^verbatim>\<open>exec\<close> call, the messages of every explanation call).
\<close>

record world =
  self_obj :: analyst
  heap :: store
  gen_log :: "(message list \<times> real) list"
  exec_log :: "exec_call list"
  chat_log :: "message list list"

section \<open>The analyst object: \<^verbatim>\<open>AgenticAnalyst.__init__\<close>\<close>

text \<open>
  The fifteen objects named by \<^verbatim>\<open>safe_globals\<close> exist in the host process before any
  request; they sit at references 0 to 14 of the initial store, and the module
  \<^verbatim>\<open>builtins\<close> of the interpreter sits at reference 15.
\<close>

definition whitelist :: "string list" where
  "whitelist = [''pd'', ''np'', ''json'', ''print'', ''len'', ''sum'', ''min'', ''max'',
                ''round'', ''abs'', ''float'', ''int'', ''str'', ''list'', ''dict'']"

definition builtins_ref :: ref where
  "builtins_ref = length whitelist"

definition host_store :: store where
  "host_store =
     \<lparr>objs = (\<lambda>r. if r < length whitelist then ObjectV (whitelist ! r)
                  else if r = builtins_ref then ObjectV ''builtins'' else NoneV),
      next_ref = Suc builtins_ref\<rparr>"

definition init :: analyst where
  "init = \<lparr>safe_globals = map_of (zip whitelist [0..<length whitelist]),
           max_attempts = 3\<rparr>"

definition initial_world :: world where
  "initial_world =
     \<lparr>self_obj = init, heap = host_store, gen_log = [], exec_log = [], chat_log = []\<rparr>"

section \<open>Table Loader: \<^verbatim>\<open>AgenticAnalyst._load_excel_sheets\<close>\<close>

text \<open>
  \<^verbatim>\<open>sheet_name.lower().replace(' ', '_').replace('&', 'and').replace('-', '_')\<close>.
  \<open>lower_char\<close> is \<^verbatim>\<open>str.lower\<close> on the code points below 256.
\<close>

definition lower_char :: "char \<Rightarrow> char" where
  "lower_char c =
     (let n = (of_char c :: nat)
      in if (65 \<le> n \<and> n \<le> 90) \<or> (192 \<le> n \<and> n \<le> 222 \<and> n \<noteq> 215)
         then char_of (n + 32) else c)"

definition replace_char :: "char \<Rightarrow> string \<Rightarrow> string \<Rightarrow> string" where
  "replace_char old new s = concat (map (\<lambda>c. if c = old then new else [c]) s)"

definition normalize_name :: "string \<Rightarrow> string" where
  "normalize_name sheet_name =
     replace_char (CHR ''-'') ''_''
       (replace_char (CHR ''&'') ''and''
          (replace_char (CHR '' '') ''_'' (map lower_char sheet_name)))"

text \<open>
  \<^verbatim>\<open>df.dropna(how='all').dropna(axis=1, how='all')\<close>: first the rows whose cells are all
  missing go, then the columns whose remaining cells are all missing. A row shorter than
  the column list reads as missing beyond its end. \<^verbatim>\<open>df.empty\<close> holds when either axis
  has length 0.
\<close>

definition isna :: "pyval \<Rightarrow> bool" where
  "isna v = (v = NaNV \<or> v = NoneV)"

definition cell :: "pyval list \<Rightarrow> nat \<Rightarrow> pyval" where
  "cell row j = (if j < length row then row ! j else NaNV)"

definition dropna_rows :: "pyval list \<times> pyval list list \<Rightarrow> pyval list \<times> pyval list list" where
  "dropna_rows df = (fst df, filter (\<lambda>row. \<not> list_all isna row) (snd df))"

definition dropna_columns :: "pyval list \<times> pyval list list \<Rightarrow> pyval list \<times> pyval list list" where
  "dropna_columns df =
     (let keep = filter (\<lambda>j. \<not> list_all (\<lambda>row. isna (cell row j)) (snd df))
                   [0..<length (fst df)]
      in (map (\<lambda>j. fst df ! j) keep, map (\<lambda>row. map (cell row) keep) (snd df)))"

definition df_empty :: "pyval list \<times> pyval list list \<Rightarrow> bool" where
  "df_empty df = (fst df = [] \<or> snd df = [])"

text \<open>
  The loop over \<^verbatim>\<open>xls.sheet_names\<close>. Each cleaned frame is a new object of the store;
  \<^verbatim>\<open>df_dict[normalized_name] = df\<close> overwrites an earlier sheet of the same normalized
  name. An exception of \<^verbatim>\<open>pd.read_excel\<close> ends the loop.
\<close>

fun load_sheets :: "env \<Rightarrow> string \<Rightarrow> string list \<Rightarrow> df_dict \<Rightarrow> store \<Rightarrow> (pyexc + df_dict) \<times> store" where
  "load_sheets E excel_path [] df_dict h = (Inr df_dict, h)"
| "load_sheets E excel_path (sheet_name # rest) df_dict h =
     (let normalized_name = normalize_name sheet_name
      in case read_excel E excel_path sheet_name of
           Inl e \<Rightarrow> (Inl e, h)
         | Inr df \<Rightarrow>
             (let df' = dropna_columns (dropna_rows df);
                  (r, h') = alloc (DataFrameV (fst df') (snd df')) h
              in load_sheets E excel_path rest (dict_set normalized_name r df_dict) h'))"

definition load_excel_sheets :: "env \<Rightarrow> string \<Rightarrow> store \<Rightarrow> (pyexc + df_dict) \<times> store" where
  "load_excel_sheets E excel_path h =
     (case ExcelFile E excel_path of
        Inl e \<Rightarrow> (Inl e, h)
      | Inr sheet_names \<Rightarrow> load_sheets E excel_path sheet_names [] h)"

section \<open>Table Introspector: \<^verbatim>\<open>AgenticAnalyst._analyze_dataframes\<close>\<close>

text \<open>
  The loop over \<^verbatim>\<open>df_dict.items()\<close>: an empty frame is skipped
  (\<^verbatim>\<open>if df.empty: continue\<close>), every other frame contributes its summary; an exception
  of the introspection ends the loop. An object that is not a frame has no \<^verbatim>\<open>empty\<close>
  attribute.
\<close>

fun analyze_dataframes :: "env \<Rightarrow> store \<Rightarrow> df_dict \<Rightarrow> pyexc + (pyval \<times> pyval) list" where
  "analyze_dataframes E h [] = Inr []"
| "analyze_dataframes E h ((name, r) # rest) =
     (case objs h r of
        DataFrameV cols rows \<Rightarrow>
          (if df_empty (cols, rows) then analyze_dataframes E h rest
           else (case table_summary E (cols, rows) of
                   Inl e \<Rightarrow> Inl e
                 | Inr s \<Rightarrow>
                     (case analyze_dataframes E h rest of
                        Inl e \<Rightarrow> Inl e
                      | Inr analysis \<Rightarrow> Inr ((StrV name, s) # analysis))))
      | v \<Rightarrow> Inl (Exception (attribute_error E v ''empty'')))"

section \<open>Result Normalizer: \<^verbatim>\<open>AgenticAnalyst._serialize_result\<close>\<close>

text \<open>
  \<^verbatim>\<open>DataFrame.head(100)\<close> keeps the first 100 rows.
  \<^verbatim>\<open>DataFrame.to_dict(orient='records')\<close> walks the rows as the zip of the column arrays
  and makes one dict per row, keyed by the column labels (a repeated label keeps its last
  cell); the zip of no column at all yields no row, so a frame without columns gives the
  empty list whatever its number of rows.
\<close>

definition head :: "nat \<Rightarrow> pyval list list \<Rightarrow> pyval list list" where
  "head n rows = take n rows"

definition to_dict_records :: "pyval list \<Rightarrow> pyval list list \<Rightarrow> pyval" where
  "to_dict_records cols rows =
     (if cols = [] then ListV []
      else ListV (map (\<lambda>row. DictV (dict_of (zip cols row))) rows))"

text \<open>
  The \<^verbatim>\<open>isinstance\<close> chain in the order of the source. \<^verbatim>\<open>int(result)\<close>,
  \<^verbatim>\<open>float(result)\<close> and \<^verbatim>\<open>result.tolist()\<close> are the numpy conversions of the
  environment and may raise; the list and dict comprehensions stop at the first element
  whose normalization raises.
\<close>

fun serialize_result :: "env \<Rightarrow> pyval \<Rightarrow> pyexc + pyval"
  and serialize_items :: "env \<Rightarrow> pyval list \<Rightarrow> pyexc + pyval list"
  and serialize_values :: "env \<Rightarrow> (pyval \<times> pyval) list \<Rightarrow> pyexc + (pyval \<times> pyval) list" where
  "serialize_result E NoneV = Inr NoneV"
| "serialize_result E (DataFrameV cols rows) =
     (let rows' = (if length rows > 100 then head 100 rows else rows)
      in Inr (to_dict_records cols rows'))"
| "serialize_result E (SeriesV items) = Inr (DictV (dict_of items))"
| "serialize_result E (NpIntegerV x) =
     (case np_int E x of Inl e \<Rightarrow> Inl e | Inr i \<Rightarrow> Inr (IntV i))"
| "serialize_result E (NpFloatingV x) =
     (case np_float E x of Inl e \<Rightarrow> Inl e | Inr (m, e) \<Rightarrow> Inr (FloatV m e))"
| "serialize_result E (NdArrayV x) = np_tolist E x"
| "serialize_result E (ListV xs) =
     (case serialize_items E xs of Inl e \<Rightarrow> Inl e | Inr ys \<Rightarrow> Inr (ListV ys))"
| "serialize_result E (DictV kvs) =
     (case serialize_values E kvs of Inl e \<Rightarrow> Inl e | Inr kvs' \<Rightarrow> Inr (DictV kvs'))"
| "serialize_result E NaNV = Inr NaNV"
| "serialize_result E (BoolV b) = Inr (BoolV b)"
| "serialize_result E (IntV i) = Inr (IntV i)"
| "serialize_result E (FloatV m e) = Inr (FloatV m e)"
| "serialize_result E (StrV s) = Inr (StrV s)"
| "serialize_result E (ObjectV t) = Inr (ObjectV t)"
| "serialize_items E [] = Inr []"
| "serialize_items E (x # xs) =
     (case serialize_result E x of
        Inl e \<Rightarrow> Inl e
      | Inr y \<Rightarrow> (case serialize_items E xs of Inl e \<Rightarrow> Inl e | Inr ys \<Rightarrow> Inr (y # ys)))"
| "serialize_values E [] = Inr []"
| "serialize_values E ((k, v) # kvs) =
     (case serialize_result E v of
        Inl e \<Rightarrow> Inl e
      | Inr v' \<Rightarrow>
          (case serialize_values E kvs of Inl e \<Rightarrow> Inl e | Inr kvs' \<Rightarrow> Inr ((k, v') # kvs')))"

section \<open>Literal prompt texts\<close>

text \<open>
  The constant parts of the f-strings of \<^verbatim>\<open>_generate_analysis_code\<close> and
  \<^verbatim>\<open>_generate_explanation\<close>, cut at the interpolated expressions and written line
  by line (\<open>join_nl\<close> puts the line feeds back); a doubled brace of the f-string is
  the single brace it denotes.
\<close>

definition error_section_text_1 :: string where
  "error_section_text_1 = join_nl
    ['''',
     ''PREVIOUS ATTEMPT FAILED:'',
     ''Error: '']"

definition error_section_text_2 :: string where
  "error_section_text_2 = join_nl
    ['''',
     ''Failed Code:'',
     ''```python'',
     '''']"

definition error_section_text_3 :: string where
  "error_section_text_3 = join_nl
    ['''',
     ''```'',
     '''',
     ''Please fix the error and try a different approach. Common issues:'',
     ''- Wrong column names (check the actual column names below)'',
     ''- Index out of bounds (check DataFrame shape)'',
     ''- Type errors (convert data types properly)'',
     '''']"

definition analysis_prompt_text_1 :: string where
  "analysis_prompt_text_1 = join_nl
    ['''',
     ''You are an expert Python data analyst. Generate robust Python code to answer this query.'',
     '''',
     ''Query: '']"

definition analysis_prompt_text_2 :: string where
  "analysis_prompt_text_2 = join_nl
    ['''',
     '''',
     ''ATTEMPT: '']"

definition analysis_prompt_text_3 :: string where
  "analysis_prompt_text_3 = join_nl
    [''/'']"

definition analysis_prompt_text_4 :: string where
  "analysis_prompt_text_4 = join_nl
    ['''',
     '''',
     '''']"

definition analysis_prompt_text_5 :: string where
  "analysis_prompt_text_5 = join_nl
    ['''',
     '''',
     ''Available DataFrames with DETAILED STRUCTURE:'',
     '''']"

definition analysis_prompt_text_6 :: string where
  "analysis_prompt_text_6 = join_nl
    ['''',
     '''',
     ''Financial Context:'',
     ''Company: '']"

definition analysis_prompt_text_7 :: string where
  "analysis_prompt_text_7 = join_nl
    ['''',
     ''Year: '']"

definition analysis_prompt_text_8 :: string where
  "analysis_prompt_text_8 = join_nl
    ['''',
     '''',
     ''CRITICAL INSTRUCTIONS:'',
     ''1. Use EXACT column names from the structure above'',
     ''2. Always check if data exists before accessing (use .empty, .shape)'',
     ''3. Handle missing values with .dropna() or .fillna()'',
     ''4. Use try-except for risky operations'',
     ''5. Use print() statements to display formatted output - DO NOT store formatted text in 'result' variable'',
     ''6. Store only the RAW DATA in 'result' variable (for programmatic access)'',
     ''7. DataFrames available: '']"

definition analysis_prompt_text_9 :: string where
  "analysis_prompt_text_9 = join_nl
    ['''',
     '''',
     ''OUTPUT FORMATTING RULES:'',
     ''- Use print() to display human-readable formatted output'',
     ''- Use clear headings and section breaks (e.g., '' @ [CHR 0x22] @ ''=== Profitability Analysis ==='' @ [CHR 0x22] @ '')'',
     ''- Format percentages with % symbol (e.g., '' @ [CHR 0x22] @ ''Growth: 15.5%'' @ [CHR 0x22] @ '')'',
     ''- Format currency with appropriate symbols (e.g., '' @ [CHR 0x22] @ ''$1,234.56M'' @ [CHR 0x22] @ '')'',
     ''- Use tables or structured text for multiple values'',
     ''- Add context and interpretation to numbers'',
     ''- NEVER print raw dictionaries like {'key': value} - format them nicely!'',
     ''- Store raw calculation results in 'result' variable, print formatted version'',
     '''',
     ''EXAMPLE OUTPUT (Good):'',
     ''```'',
     ''=== Revenue Growth Analysis ==='',
     ''Current Year Revenue: $245.12 Billion'',
     ''Previous Year Revenue: $198.27 Billion'',
     ''Growth Rate: 23.6%'',
     ''Status: Strong growth trajectory'',
     ''```'',
     '''',
     ''EXAMPLE OUTPUT (Bad - DON'T DO THIS):'',
     ''```'',
     ''{'revenue_current': 245120000000, 'revenue_previous': 198270000000, 'growth': 0.236}'',
     ''```'',
     '''',
     ''BEST PRACTICES:'',
     ''- Use .loc[] for label-based indexing'',
     ''- Use .iloc[] for position-based indexing'',
     ''- Check array length before accessing with .values[0]'',
     ''- Convert to numeric with pd.to_numeric(data, errors='coerce')'',
     ''- Use .get() method for dict-like operations'',
     '''',
     ''IMPORTANT: DataFrames have LINE ITEMS AS ROWS, NOT COLUMNS!'',
     ''- First column (index 0) contains row labels like 'Revenue', 'Gross Profit', etc.'',
     ''- Other columns contain numeric data for different years'',
     ''- To find data: Search in the FIRST COLUMN, then get values from OTHER COLUMNS'',
     '''',
     ''EXAMPLE (Revenue Growth):'',
     ''```python'',
     ''# Find revenue data safely - SEARCH IN ROWS, NOT COLUMNS!'',
     ''df = income_statement'',
     ''label_col = df.columns[0]  # First column has labels (e.g., 'Line Item')'',
     '''',
     ''# Search for revenue row by checking values in the first column'',
     ''revenue_rows = df[df[label_col].astype(str).str.contains('Revenue', case=False, na=False)]'',
     ''if not revenue_rows.empty:'',
     ''    # Get numeric values from columns 1 and 2 (current and previous year)'',
     ''    revenue_current = pd.to_numeric(revenue_rows.iloc[0, 1], errors='coerce')'',
     ''    revenue_previous = pd.to_numeric(revenue_rows.iloc[0, 2], errors='coerce')'',
     ''    '',
     ''    if pd.notna(revenue_current) and pd.notna(revenue_previous) and revenue_previous != 0:'',
     ''        result = ((revenue_current - revenue_previous) / revenue_previous) * 100'',
     ''        print(f'' @ [CHR 0x22] @ ''Revenue Growth: {result:.2f}%'' @ [CHR 0x22] @ '')'',
     ''    else:'',
     ''        result = None'',
     ''        print('' @ [CHR 0x22] @ ''Revenue data not found or invalid'' @ [CHR 0x22] @ '')'',
     ''else:'',
     ''    result = None'',
     ''    print('' @ [CHR 0x22] @ ''Revenue row not found in first column'' @ [CHR 0x22] @ '')'',
     ''```'',
     '''',
     ''CRITICAL: Always use df[df[first_column].str.contains('text')] to search for rows!'',
     ''DO NOT use df[df['Revenue']] - 'Revenue' is a ROW LABEL, not a column name!'',
     '''',
     ''Generate ONLY executable Python code. No markdown, no explanations, no comments outside code.'',
     '''']"

definition explanation_prompt_text_1 :: string where
  "explanation_prompt_text_1 = join_nl
    ['''',
     ''Explain the following analysis in simple terms:'',
     '''',
     ''User Query: '']"

definition explanation_prompt_text_2 :: string where
  "explanation_prompt_text_2 = join_nl
    ['''',
     '''',
     ''Code Executed:'',
     ''```python'',
     '''']"

definition explanation_prompt_text_3 :: string where
  "explanation_prompt_text_3 = join_nl
    ['''',
     ''```'',
     '''',
     ''Result:'',
     '''']"

definition explanation_prompt_text_4 :: string where
  "explanation_prompt_text_4 = join_nl
    ['''',
     '''',
     ''Output:'',
     '''']"

definition explanation_prompt_text_5 :: string where
  "explanation_prompt_text_5 = join_nl
    ['''',
     '''',
     ''Provide a clear, concise explanation of:'',
     ''1. What analysis was performed'',
     ''2. What the results mean'',
     ''3. Any insights or recommendations'',
     '''',
     ''Keep it under 150 words.'',
     '''']"

definition code_generator_system_text :: string where
  "code_generator_system_text = join_nl
    [''You are a Python code generator. You MUST return ONLY valid, executable Python code.'',
     '''',
     ''STRICT RULES:'',
     ''1. NO explanations, NO markdown, NO comments outside the code'',
     ''2. Start directly with Python code (no text before)'',
     ''3. Do not include phrases like '' @ [CHR 0x22] @ ''Here's the code'' @ [CHR 0x22] @ '' or '' @ [CHR 0x22] @ ''Let me explain'' @ [CHR 0x22],
     ''4. Return pure Python code that can be directly executed'',
     ''5. If you need to explain, use Python comments with # inside the code'']"

section \<open>Prompt Composer and Code Generation: \<^verbatim>\<open>AgenticAnalyst._generate_analysis_code\<close>\<close>

text \<open>\<^verbatim>\<open>str(n)\<close> for a natural number, as an f-string prints \<^verbatim>\<open>attempt\<close>.\<close>

function str_nat :: "nat \<Rightarrow> string" where
  "str_nat n =
     (if n < 10 then [char_of (48 + n)]
      else str_nat (n div 10) @ [char_of (48 + n mod 10)])"
  by pat_completeness auto
termination
  by (relation "measure id") auto

declare str_nat.simps [simp del]

text \<open>\<^verbatim>\<open>sep.join(items)\<close>.\<close>

fun join_with :: "string \<Rightarrow> string list \<Rightarrow> string" where
  "join_with sep [] = []"
| "join_with sep [x] = x"
| "join_with sep (x # xs) = x @ sep @ join_with sep xs"

text \<open>
  \<^verbatim>\<open>last_error\<close>, the dict that the retry loop hands to the next attempt as
  \<^verbatim>\<open>error_context\<close>. Its \<^verbatim>\<open>code\<close> entry is \<^verbatim>\<open>None\<close> when the local variable
  \<^verbatim>\<open>code\<close> is unbound.
\<close>

record error_context =
  error :: string
  traceback :: string
  code :: "string option"

text \<open>
  \<^verbatim>\<open>d.get(key, default)\<close>: the entry or the default when \<^verbatim>\<open>d\<close> is a dict, an
  \<^verbatim>\<open>AttributeError\<close> otherwise. The request's \<^verbatim>\<open>financial_data\<close> is any value, read
  by \<^verbatim>\<open>financial_data.get('metadata', {}).get(key, 'Unknown')\<close>, and the f-string prints
  what it finds: a text as it is, any other value through \<^verbatim>\<open>str\<close>.
\<close>

definition py_get :: "env \<Rightarrow> pyval \<Rightarrow> string \<Rightarrow> pyval \<Rightarrow> pyexc + pyval" where
  "py_get E d key dflt =
     (case d of
        DictV kvs \<Rightarrow> Inr (case map_of kvs (StrV key) of None \<Rightarrow> dflt | Some v \<Rightarrow> v)
      | v \<Rightarrow> Inl (Exception (attribute_error E v ''get'')))"

definition fstring :: "env \<Rightarrow> pyval \<Rightarrow> string" where
  "fstring E v = (case v of StrV s \<Rightarrow> s | _ \<Rightarrow> py_str E v)"

definition metadata_get :: "env \<Rightarrow> pyval \<Rightarrow> string \<Rightarrow> pyexc + string" where
  "metadata_get E financial_data key =
     (case py_get E financial_data ''metadata'' (DictV []) of
        Inl e \<Rightarrow> Inl e
      | Inr metadata \<Rightarrow>
          (case py_get E metadata key (StrV ''Unknown'') of
             Inl e \<Rightarrow> Inl e
           | Inr v \<Rightarrow> Inr (fstring E v)))"

text \<open>
  \<^verbatim>\<open>error_section\<close>: empty unless \<^verbatim>\<open>error_context and attempt > 1\<close>; an f-string
  prints a \<^verbatim>\<open>None\<close> code as the text \<^verbatim>\<open>None\<close>.
\<close>

definition error_section :: "error_context option \<Rightarrow> nat \<Rightarrow> string" where
  "error_section error_context attempt =
     (case error_context of
        None \<Rightarrow> ''''
      | Some ctx \<Rightarrow>
          (if attempt > 1 then
             error_section_text_1 @ error ctx @ error_section_text_2
               @ (case code ctx of None \<Rightarrow> ''None'' | Some c \<Rightarrow> c) @ error_section_text_3
           else ''''))"

definition analysis_prompt ::
  "string \<Rightarrow> nat \<Rightarrow> nat \<Rightarrow> string \<Rightarrow> string \<Rightarrow> string \<Rightarrow> string \<Rightarrow> string \<Rightarrow> string" where
  "analysis_prompt query attempt budget section dumped company year names =
     analysis_prompt_text_1 @ query
     @ analysis_prompt_text_2 @ str_nat attempt
     @ analysis_prompt_text_3 @ str_nat budget
     @ analysis_prompt_text_4 @ section
     @ analysis_prompt_text_5 @ dumped
     @ analysis_prompt_text_6 @ company
     @ analysis_prompt_text_7 @ year
     @ analysis_prompt_text_8 @ names
     @ analysis_prompt_text_9"

text \<open>
  The f-string evaluates its expressions from left to right, so
  \<^verbatim>\<open>json.dumps(df_analysis, indent=2)\<close> raises before the two metadata reads do.
  \<^verbatim>\<open>temperature=0.1 if attempt > 1 else 0.2\<close>; \<^verbatim>\<open>max_tokens=2000\<close>. The reply is
  stripped and cleaned. The call is logged when it is made, that is after the prompt has
  been built.
\<close>

definition generate_analysis_code ::
  "env \<Rightarrow> string \<Rightarrow> df_dict \<Rightarrow> pyval \<Rightarrow> (pyval \<times> pyval) list
     \<Rightarrow> error_context option \<Rightarrow> nat \<Rightarrow> world \<Rightarrow> (pyexc + string) \<times> world" where
  "generate_analysis_code E query df_dict financial_data df_analysis error_context attempt w =
     (case json_dumps E (DictV df_analysis) of
        Inl e \<Rightarrow> (Inl e, w)
      | Inr dumped \<Rightarrow>
     (case metadata_get E financial_data ''company_name'' of
        Inl e \<Rightarrow> (Inl e, w)
      | Inr company \<Rightarrow>
     (case metadata_get E financial_data ''fiscal_year'' of
        Inl e \<Rightarrow> (Inl e, w)
      | Inr year \<Rightarrow>
          (let prompt = analysis_prompt query attempt (max_attempts (self_obj w))
                          (error_section error_context attempt) dumped company year
                          (join_with '', '' (dict_keys df_dict));
               messages = [(''system'', code_generator_system_text), (''user'', prompt)];
               temperature = (if attempt > 1 then 0.1 else 0.2);
               w' = w\<lparr>gen_log := gen_log w @ [(messages, temperature)]\<rparr>
           in case code_generation E (length (gen_log w)) messages temperature 2000 of
                Inl e \<Rightarrow> (Inl e, w')
              | Inr reply \<Rightarrow> (Inr (clean_code (strip reply)), w')))))"

section \<open>Execution Sandbox: \<^verbatim>\<open>AgenticAnalyst._execute_code\<close>\<close>

text \<open>
  The dict returned on success, \<^verbatim>\<open>{"value": ..., "output": ..., "errors": ...}\<close>.
\<close>

record outcome =
  "value" :: pyval
  "output" :: string
  errors :: "string option"

definition outcome_dict :: "outcome \<Rightarrow> pyval" where
  "outcome_dict r =
     DictV [(StrV ''value'', value r),
            (StrV ''output'', StrV (output r)),
            (StrV ''errors'', (case errors r of None \<Rightarrow> NoneV | Some s \<Rightarrow> StrV s))]"

text \<open>
  \<^verbatim>\<open>exec_globals = self.safe_globals.copy()\<close> followed by
  \<^verbatim>\<open>exec_globals.update(df_dict)\<close>: a new dict with the entries of \<^verbatim>\<open>safe_globals\<close>,
  overridden by those of \<^verbatim>\<open>df_dict\<close>; the values are the same references.
\<close>

definition exec_globals_of :: "analyst \<Rightarrow> df_dict \<Rightarrow> namespace" where
  "exec_globals_of self df_dict = safe_globals self ++ map_of df_dict"

text \<open>
  Python's \<^verbatim>\<open>exec(code, globals)\<close>: when the globals dict has no entry for
  \<^verbatim>\<open>__builtins__\<close>, a reference to the module \<^verbatim>\<open>builtins\<close> is inserted under that key
  before the code runs. A name that the code uses is looked up in the globals and then in
  that module, which is how \<^verbatim>\<open>open\<close>, \<^verbatim>\<open>eval\<close> or \<^verbatim>\<open>__import__\<close> resolve.
  \<open>some_builtins\<close> lists a few of the module's names that the whitelist leaves out.
\<close>

definition with_builtins :: "namespace \<Rightarrow> namespace" where
  "with_builtins ns =
     (case ns ''__builtins__'' of
        None \<Rightarrow> ns(''__builtins__'' \<mapsto> builtins_ref)
      | Some r \<Rightarrow> ns)"

definition some_builtins :: "string list" where
  "some_builtins = [''open'', ''eval'', ''exec'', ''compile'', ''__import__'', ''getattr'',
                    ''globals'', ''SystemExit'']"

definition name_resolves :: "namespace \<Rightarrow> string \<Rightarrow> bool" where
  "name_resolves ns name =
     (case ns name of
        Some r \<Rightarrow> True
      | None \<Rightarrow> ns ''__builtins__'' = Some builtins_ref \<and> name \<in> set some_builtins)"

text \<open>
  The exception that the handler of \<^verbatim>\<open>_execute_code\<close> raises for a caught \<^verbatim>\<open>e\<close>:
  \<^verbatim>\<open>Exception(f"{error_msg}\\n\\nTraceback:\\n{tb}")\<close> with
  \<^verbatim>\<open>error_msg = f"Code execution error: {str(e)}"\<close>.
\<close>

definition execution_error :: "env \<Rightarrow> string \<Rightarrow> pyexc" where
  "execution_error E m =
     Exception (''Code execution error: '' @ m @ [CHR 0x0A, CHR 0x0A]
                @ ''Traceback:'' @ [CHR 0x0A] @ format_exc E (Exception m))"

text \<open>
  The \<^verbatim>\<open>try\<close> block runs the code and, when the namespace then has a \<^verbatim>\<open>result\<close>
  entry, normalizes its value; both steps are inside the block. \<^verbatim>\<open>except Exception as e\<close>
  raises the new exception; any other exception leaves the function as it is. Whatever the
  code did to the store and to the analyst object stays done.
\<close>

definition reraise :: "env \<Rightarrow> pyexc \<Rightarrow> pyexc" where
  "reraise E e = (case e of Exception m \<Rightarrow> execution_error E m | BaseException m \<Rightarrow> BaseException m)"

definition execute_code ::
  "env \<Rightarrow> string \<Rightarrow> df_dict \<Rightarrow> world \<Rightarrow> (pyexc + outcome) \<times> world" where
  "execute_code E code_text df_dict w =
     (let exec_globals = with_builtins (exec_globals_of (self_obj w) df_dict);
          r = run_exec E code_text exec_globals (heap w) (self_obj w);
          w' = w\<lparr>self_obj := analyst_after r,
                  heap := store_after r,
                  exec_log := exec_log w @ [\<lparr>call_code = code_text, call_globals = exec_globals,
                                            call_store = heap w, call_self = self_obj w\<rparr>]\<rparr>
      in case raised r of
           Some e \<Rightarrow> (Inl (reraise E e), w')
         | None \<Rightarrow>
             (case (case globals_after r ''result'' of
                      None \<Rightarrow> Inr NoneV
                    | Some ref \<Rightarrow> serialize_result E (objs (store_after r) ref)) of
                Inl e \<Rightarrow> (Inl (reraise E e), w')
              | Inr result \<Rightarrow>
                  (Inr \<lparr>value = result,
                        output = stdout_text r,
                        errors = (if stderr_text r \<noteq> [] then Some (stderr_text r) else None)\<rparr>,
                   w')))"

section \<open>Explanation Client call: \<^verbatim>\<open>AgenticAnalyst._generate_explanation\<close>\<close>

definition explanation_prompt :: "string \<Rightarrow> string \<Rightarrow> string \<Rightarrow> string \<Rightarrow> string" where
  "explanation_prompt query code_text dumped out =
     explanation_prompt_text_1 @ query
     @ explanation_prompt_text_2 @ code_text
     @ explanation_prompt_text_3 @ dumped
     @ explanation_prompt_text_4 @ out
     @ explanation_prompt_text_5"

definition generate_explanation ::
  "env \<Rightarrow> string \<Rightarrow> string \<Rightarrow> outcome \<Rightarrow> world \<Rightarrow> (pyexc + string) \<times> world" where
  "generate_explanation E query code_text result w =
     (case json_dumps E (value result) of
        Inl e \<Rightarrow> (Inl e, w)
      | Inr dumped \<Rightarrow>
          (let prompt = explanation_prompt query code_text (take 500 dumped) (output result);
               messages = [(''system'', ''You are a financial analyst explaining results.''),
                           (''user'', prompt)];
               w' = w\<lparr>chat_log := chat_log w @ [messages]\<rparr>
           in case chat_completion E (length (chat_log w)) messages 0.7 300 of
                Inl e \<Rightarrow> (Inl e, w')
              | Inr reply \<Rightarrow> (Inr (strip reply), w')))"

section \<open>Retry Controller: \<^verbatim>\<open>AgenticAnalyst.analyze\<close>\<close>

text \<open>The two dict literals that \<^verbatim>\<open>analyze\<close> returns.\<close>

definition success_result :: "string \<Rightarrow> string \<Rightarrow> outcome \<Rightarrow> string \<Rightarrow> nat \<Rightarrow> pyval" where
  "success_result user_query code_text result explanation attempts =
     DictV [(StrV ''success'', BoolV True),
            (StrV ''query'', StrV user_query),
            (StrV ''code'', StrV code_text),
            (StrV ''result'', outcome_dict result),
            (StrV ''explanation'', StrV explanation),
            (StrV ''attempts'', IntV (int attempts))]"

definition failure_result :: "analyst \<Rightarrow> string \<Rightarrow> string \<Rightarrow> pyval" where
  "failure_result self user_query msg =
     DictV [(StrV ''success'', BoolV False),
            (StrV ''query'', StrV user_query),
            (StrV ''error'', StrV msg),
            (StrV ''explanation'',
               StrV (''Error occurred during analysis after '' @ str_nat (max_attempts self)
                     @ '' attempts: '' @ msg)),
            (StrV ''attempts'', IntV (int (max_attempts self)))]"

text \<open>
  The body of the inner \<^verbatim>\<open>try\<close> for one value of \<^verbatim>\<open>attempt\<close>: it either reaches the
  \<^verbatim>\<open>return\<close>, or raises. \<open>Raised e c\<close> carries the exception and the value that the
  local variable \<^verbatim>\<open>code\<close> has when the handler runs: the code of this attempt once
  generation has returned, and otherwise whatever the variable held before (\<open>None\<close> while
  unbound).
\<close>

datatype attempt_outcome = Returned pyval | Raised pyexc "string option"

definition attempt_body ::
  "env \<Rightarrow> string \<Rightarrow> df_dict \<Rightarrow> pyval \<Rightarrow> (pyval \<times> pyval) list
     \<Rightarrow> error_context option \<Rightarrow> string option \<Rightarrow> nat \<Rightarrow> world \<Rightarrow> attempt_outcome \<times> world" where
  "attempt_body E user_query df_dict financial_data df_analysis last_error code_var attempt w =
     (case generate_analysis_code E user_query df_dict financial_data df_analysis
             (if attempt > 0 then last_error else None) (attempt + 1) w of
        (Inl e, w1) \<Rightarrow> (Raised e code_var, w1)
      | (Inr code_text, w1) \<Rightarrow>
          (case execute_code E code_text df_dict w1 of
             (Inl e, w2) \<Rightarrow> (Raised e (Some code_text), w2)
           | (Inr result, w2) \<Rightarrow>
               (case generate_explanation E user_query code_text result w2 of
                  (Inl e, w3) \<Rightarrow> (Raised e (Some code_text), w3)
                | (Inr explanation, w3) \<Rightarrow>
                    (Returned (success_result user_query code_text result explanation (attempt + 1)),
                     w3))))"

text \<open>
  \<^verbatim>\<open>for attempt in range(self.max_attempts)\<close> with the handler
  \<^verbatim>\<open>except Exception as exec_error\<close>: it records \<^verbatim>\<open>last_error\<close>, re-raises on the last
  attempt and continues otherwise. An exception outside \<^verbatim>\<open>Exception\<close> is not handled.
  The list of attempts is fixed when the loop starts; \<^verbatim>\<open>self.max_attempts - 1\<close> is read
  at each pass. A loop that runs out of attempts without returning leaves the function at
  its end, which returns \<^verbatim>\<open>None\<close>.
\<close>

fun attempts_loop ::
  "env \<Rightarrow> string \<Rightarrow> df_dict \<Rightarrow> pyval \<Rightarrow> (pyval \<times> pyval) list
     \<Rightarrow> nat list \<Rightarrow> error_context option \<Rightarrow> string option \<Rightarrow> world \<Rightarrow> (pyexc + pyval) \<times> world" where
  "attempts_loop E user_query df_dict financial_data df_analysis [] last_error code_var w =
     (Inr NoneV, w)"
| "attempts_loop E user_query df_dict financial_data df_analysis (attempt # rest)
       last_error code_var w =
     (case attempt_body E user_query df_dict financial_data df_analysis
             last_error code_var attempt w of
        (Returned v, w') \<Rightarrow> (Inr v, w')
      | (Raised (BaseException m) code_var', w') \<Rightarrow> (Inl (BaseException m), w')
      | (Raised (Exception m) code_var', w') \<Rightarrow>
          (let last_error' = \<lparr>error = m, traceback = format_exc E (Exception m),
                               code = code_var'\<rparr>
           in if int attempt = int (max_attempts (self_obj w')) - 1 then (Inl (Exception m), w')
              else attempts_loop E user_query df_dict financial_data df_analysis rest
                     (Some last_error') code_var' w'))"

text \<open>
  The outer handler \<^verbatim>\<open>except Exception as e\<close> turns an exception of the loader, of the
  introspector or of the last attempt into the failure dict; it reads
  \<^verbatim>\<open>self.max_attempts\<close> when it runs.
\<close>

definition outer_handler ::
  "string \<Rightarrow> (pyexc + pyval) \<times> world \<Rightarrow> (pyexc + pyval) \<times> world" where
  "outer_handler user_query r =
     (case r of
        (Inl (Exception m), w) \<Rightarrow> (Inr (failure_result (self_obj w) user_query m), w)
      | (Inl (BaseException m), w) \<Rightarrow> (Inl (BaseException m), w)
      | (Inr v, w) \<Rightarrow> (Inr v, w))"

definition analyze ::
  "env \<Rightarrow> string \<Rightarrow> string \<Rightarrow> pyval \<Rightarrow> world \<Rightarrow> (pyexc + pyval) \<times> world" where
  "analyze E user_query excel_path financial_data w =
     outer_handler user_query
       (case load_excel_sheets E excel_path (heap w) of
          (Inl e, h) \<Rightarrow> (Inl e, w\<lparr>heap := h\<rparr>)
        | (Inr df_dict, h) \<Rightarrow>
            (case analyze_dataframes E h df_dict of
               Inl e \<Rightarrow> (Inl e, w\<lparr>heap := h\<rparr>)
             | Inr df_analysis \<Rightarrow>
                 attempts_loop E user_query df_dict financial_data df_analysis
                   [0..<max_attempts (self_obj w)] None None (w\<lparr>heap := h\<rparr>)))"


text \<open>
  The run that a logged \<^verbatim>\<open>exec\<close> call made, and the condition that every logged run
  left the attempt budget of the analyst object as it found it.
\<close>

definition run_of :: "env \<Rightarrow> exec_call \<Rightarrow> exec_result" where
  "run_of E e = run_exec E (call_code e) (call_globals e) (call_store e) (call_self e)"


text \<open>
  The log of \<^verbatim>\<open>exec\<close> calls of a state is linked when each logged call starts from
  the store and the analyst object that the run of the call before it left behind, the
  state itself holds what the run of the last logged call left behind, and every logged
  call ran in the namespace built from the analyst object it started from and the tables
  \<open>df_dict\<close>.
\<close>

definition linked :: "env \<Rightarrow> df_dict \<Rightarrow> world \<Rightarrow> bool" where
  "linked E df_dict w =
     ((\<forall>i. Suc i < length (exec_log w) \<longrightarrow>
          call_self (exec_log w ! Suc i) = analyst_after (run_of E (exec_log w ! i))
          \<and> call_store (exec_log w ! Suc i) = store_after (run_of E (exec_log w ! i)))
      \<and> (exec_log w \<noteq> [] \<longrightarrow>
            self_obj w = analyst_after (run_of E (last (exec_log w)))
            \<and> heap w = store_after (run_of E (last (exec_log w))))
      \<and> (\<forall>e\<in>set (exec_log w).
            call_globals e = with_builtins (exec_globals_of (call_self e) df_dict)))"

section \<open>Concrete collaborators\<close>

text \<open>
  A fragment of Python, enough to run the code texts of the examples below. A run
  executes the lines of the code text in order on the namespace, the store and the analyst
  object, and stops at the first line that raises. The statements of the fragment:
  \<^item> \<^verbatim>\<open>result = 1 / 0\<close> raises \<^verbatim>\<open>ZeroDivisionError\<close>, whose text is
    \<^verbatim>\<open>division by zero\<close>;
  \<^item> \<^verbatim>\<open>raise SystemExit\<close> raises \<^verbatim>\<open>SystemExit\<close>, which is outside \<^verbatim>\<open>Exception\<close>
    and whose text is empty;
  \<^item> \<^verbatim>\<open>import os\<close> binds the module \<^verbatim>\<open>os\<close>; the statement calls \<^verbatim>\<open>__import__\<close>,
    found through \<^verbatim>\<open>__builtins__\<close>;
  \<^item> \<^verbatim>\<open>result = os.name\<close> binds \<^verbatim>\<open>result\<close> to the text \<^verbatim>\<open>posix\<close> (a POSIX host);
  \<^item> \<^verbatim>\<open>result = len(data)\<close> binds \<^verbatim>\<open>result\<close> to the number of rows of the frame bound
    to \<^verbatim>\<open>data\<close>;
  \<^item> \<^verbatim>\<open>data.drop(data.index, inplace=True)\<close> removes every row of the frame bound to
    \<^verbatim>\<open>data\<close>, in place;
  \<^item> \<^verbatim>\<open>result = np.timedelta64(1, 'D')\<close> binds \<^verbatim>\<open>result\<close> to a numpy scalar that is
    an instance of \<^verbatim>\<open>np.integer\<close>;
  \<^item> \<^verbatim>\<open>import app.services.agentic_analyst as m\<close> binds the module of the service,
    already loaded in the process;
  \<^item> \<^verbatim>\<open>m.agentic_analyst.max_attempts = 5\<close> sets the attempt budget of the module-level
    analyst object.

  An empty line does nothing. A name that is not bound raises \<^verbatim>\<open>NameError\<close>. Every
  other statement is outside the fragment; the examples use none.
\<close>

type_synonym run_state = "namespace \<times> store \<times> analyst"

definition name_error :: "string \<Rightarrow> pyexc" where
  "name_error n = Exception (''name '' @ [CHR 0x27] @ n @ [CHR 0x27] @ '' is not defined'')"

definition bind_new :: "string \<Rightarrow> pyval \<Rightarrow> run_state \<Rightarrow> pyexc + run_state" where
  "bind_new n v s =
     (case s of (ns, h, a) \<Rightarrow> Inr (ns(n \<mapsto> fst (alloc v h)), snd (alloc v h), a))"

definition run_statement :: "string \<Rightarrow> run_state \<Rightarrow> pyexc + run_state" where
  "run_statement stmt s =
     (case s of (ns, h, a) \<Rightarrow>
        if stmt = '''' then Inr s
        else if stmt = ''result = 1 / 0'' then Inl (Exception ''division by zero'')
        else if stmt = ''raise SystemExit'' then
          (if name_resolves ns ''SystemExit'' then Inl (BaseException '''')
           else Inl (name_error ''SystemExit''))
        else if stmt = ''import os'' then
          (if name_resolves ns ''__import__'' then bind_new ''os'' (ObjectV ''os'') s
           else Inl (Exception ''__import__ not found''))
        else if stmt = ''result = os.name'' then
          (case ns ''os'' of
             None \<Rightarrow> Inl (name_error ''os'')
           | Some r \<Rightarrow> bind_new ''result'' (StrV ''posix'') s)
        else if stmt = ''result = len(data)'' then
          (case ns ''len'' of
             None \<Rightarrow> Inl (name_error ''len'')
           | Some f \<Rightarrow>
               (case ns ''data'' of
                  None \<Rightarrow> Inl (name_error ''data'')
                | Some r \<Rightarrow>
                    (case objs h r of
                       DataFrameV cols rows \<Rightarrow> bind_new ''result'' (IntV (int (length rows))) s
                     | v \<Rightarrow> Inl (Exception ''object has no len()''))))
        else if stmt = ''data.drop(data.index, inplace=True)'' then
          (case ns ''data'' of
             None \<Rightarrow> Inl (name_error ''data'')
           | Some r \<Rightarrow>
               (case objs h r of
                  DataFrameV cols rows \<Rightarrow>
                    Inr (ns, h\<lparr>objs := (objs h)(r := DataFrameV cols [])\<rparr>, a)
                | v \<Rightarrow> Inl (Exception ''object has no attribute drop'')))
        else if stmt = ''result = np.timedelta64(1, 'D')'' then
          (case ns ''np'' of
             None \<Rightarrow> Inl (name_error ''np'')
           | Some r \<Rightarrow> bind_new ''result'' (NpIntegerV ''numpy.timedelta64(1,'D')'') s)
        else if stmt = ''import app.services.agentic_analyst as m'' then
          (if name_resolves ns ''__import__''
           then bind_new ''m'' (ObjectV ''app.services.agentic_analyst'') s
           else Inl (Exception ''__import__ not found''))
        else if stmt = ''m.agentic_analyst.max_attempts = 5'' then
          (case ns ''m'' of
             None \<Rightarrow> Inl (name_error ''m'')
           | Some r \<Rightarrow> Inr (ns, h, a\<lparr>max_attempts := 5\<rparr>))
        else Inl (Exception ''statement outside the fragment''))"

fun run_lines :: "string list \<Rightarrow> run_state \<Rightarrow> pyexc option \<times> run_state" where
  "run_lines [] s = (None, s)"
| "run_lines (stmt # rest) s =
     (case run_statement stmt s of
        Inl e \<Rightarrow> (Some e, s)
      | Inr s' \<Rightarrow> run_lines rest s')"

definition python_run :: "string \<Rightarrow> namespace \<Rightarrow> store \<Rightarrow> analyst \<Rightarrow> exec_result" where
  "python_run code_text ns h a =
     (case run_lines (split_nl code_text) (ns, h, a) of
        (e, (ns', h', a')) \<Rightarrow>
          \<lparr>raised = e, globals_after = ns', store_after = h', analyst_after = a',
           stdout_text = [], stderr_text = []\<rparr>)"

text \<open>
  \<open>scenario\<close> builds an environment from the answer of \<^verbatim>\<open>pd.ExcelFile\<close>, the frame
  that every sheet reads as, the replies of the code-generation calls by call number and
  the replies of the explanation calls by call number; the code runs as \<open>python_run\<close>
  says. The remaining collaborators are stand-ins with fixed answers: the summary of a
  table is an empty dict, \<^verbatim>\<open>json.dumps\<close> prints \<^verbatim>\<open>{}\<close> (which is the text of the empty
  dict), the trace is its first line, and \<^verbatim>\<open>int()\<close> raises as it does on the one
  numpy scalar that the fragment makes, a \<^verbatim>\<open>timedelta64\<close> with a day unit.
\<close>

definition scenario ::
  "(pyexc + string list) \<Rightarrow> (pyval list \<times> pyval list list) \<Rightarrow> (nat \<Rightarrow> pyexc + string)
     \<Rightarrow> (nat \<Rightarrow> pyexc + string) \<Rightarrow> env" where
  "scenario sheets frame gen chat =
     \<lparr>ExcelFile = (\<lambda>p. sheets),
      read_excel = (\<lambda>p s. Inr frame),
      table_summary = (\<lambda>df. Inr (DictV [])),
      json_dumps = (\<lambda>v. Inr ''{}''),
      py_str = (\<lambda>v. ''?''),
      attribute_error = (\<lambda>v a. ''object has no attribute '' @ a),
      np_int = (\<lambda>x. Inl (Exception (''int() argument must be a string, a bytes-like object ''
                                       @ ''or a real number, not 'datetime.timedelta'' @ [CHR 0x27]))),
      np_float = (\<lambda>x. Inr (0, 0)),
      np_tolist = (\<lambda>x. Inr (ListV [])),
      code_generation = (\<lambda>n msgs t k. gen n),
      chat_completion = (\<lambda>n msgs t k. chat n),
      run_exec = python_run,
      format_exc = (\<lambda>e. ''Traceback (most recent call last):'')\<rparr>"

text \<open>
  A sheet with two data rows, and a sheet whose cells are all empty. The workbook of the
  examples has the one sheet \<^verbatim>\<open>Data\<close>.
\<close>

definition two_rows :: "pyval list \<times> pyval list list" where
  "two_rows = ([StrV ''Item'', StrV ''X''], [[StrV ''a'', IntV 10], [StrV ''b'', IntV 15]])"

definition blank_sheet :: "pyval list \<times> pyval list list" where
  "blank_sheet = ([StrV ''Item'', StrV ''X''], [[NaNV, NaNV], [NaNV, NaNV]])"

definition workbook :: "pyexc + string list" where
  "workbook = Inr [''Data'']"

definition missing_workbook :: "pyexc + string list" where
  "missing_workbook =
     Inl (Exception (''[Errno 2] No such file or directory: 'book.xlsx'' @ [CHR 0x27]))"

text \<open>
  Three replies of the code generator with more than one line. \<open>generating\<close> is the
  environment of a readable workbook for given replies of the code generator, with an
  explanation call that answers \<^verbatim>\<open>Done.\<close>; \<open>request\<close> is the question asked in the
  examples, about the workbook \<^verbatim>\<open>book.xlsx\<close> and with an empty financial context.
\<close>

definition reads_host :: string where
  "reads_host = ''import os'' @ [CHR 0x0A] @ ''result = os.name''"

definition wipes_table :: string where
  "wipes_table = ''data.drop(data.index, inplace=True)'' @ [CHR 0x0A] @ ''result = 1 / 0''"

definition raises_budget :: string where
  "raises_budget = ''import app.services.agentic_analyst as m'' @ [CHR 0x0A]
                   @ ''m.agentic_analyst.max_attempts = 5'' @ [CHR 0x0A]
                   @ ''result = 1 / 0''"

definition generating :: "(nat \<Rightarrow> pyexc + string) \<Rightarrow> env" where
  "generating gen = scenario workbook two_rows gen (\<lambda>n. Inr ''Done.'')"

definition request :: string where
  "request = ''How many rows are there?''"

section \<open>Properties of the Code Sanitizer\<close>

lemma split_nl_nonempty: "split_nl s \<noteq> []"
  by (induction s) (auto split: list.splits)

lemma rstrip_append:
  "rstrip (a @ b) = (if \<forall>c\<in>set b. isspace c then rstrip a else a @ rstrip b)"
  by (auto simp: rstrip_def dropWhile_append)

lemma lstrip_rstrip_prefix: "prefix (rstrip s) s"
proof -
  have "rev s = takeWhile isspace (rev s) @ dropWhile isspace (rev s)" by simp
  then have "s = rev (dropWhile isspace (rev s)) @ rev (takeWhile isspace (rev s))"
    by (metis rev_append rev_rev_ident)
  then show ?thesis unfolding rstrip_def prefix_def by blast
qed

lemma lstrip_suffix: "suffix (lstrip s) s"
  unfolding lstrip_def by (metis suffix_dropWhile)

lemma rstrip_idem: "rstrip (rstrip s) = rstrip s"
  by (simp add: rstrip_def dropWhile_idem)

lemma lstrip_idem: "lstrip (lstrip s) = lstrip s"
  by (simp add: lstrip_def dropWhile_idem)

lemma lstrip_head: "lstrip s = [] \<or> \<not> isspace (hd (lstrip s))"
  unfolding lstrip_def by (metis hd_dropWhile)

lemma lstrip_rstrip_lstrip: "lstrip (rstrip (lstrip s)) = rstrip (lstrip s)"
proof (cases "rstrip (lstrip s)")
  case Nil then show ?thesis by (simp add: lstrip_def)
next
  case (Cons c cs)
  have "prefix (c # cs) (lstrip s)" using lstrip_rstrip_prefix[of "lstrip s"] Cons by simp
  then have "hd (lstrip s) = c" "lstrip s \<noteq> []" by (auto simp: prefix_def)
  then have "\<not> isspace c" using lstrip_head[of s] by auto
  then show ?thesis using Cons by (simp add: lstrip_def)
qed

lemma strip_idem: "strip (strip s) = strip s"
  by (simp add: strip_def lstrip_rstrip_lstrip rstrip_idem)

lemma strip_sublist: "sublist (strip s) s"
proof -
  have "sublist (rstrip (lstrip s)) (lstrip s)" using lstrip_rstrip_prefix by (simp add: prefix_imp_sublist)
  moreover have "sublist (lstrip s) s" using lstrip_suffix by (simp add: suffix_imp_sublist)
  ultimately show ?thesis unfolding strip_def by (rule sublist_order.order.trans)
qed


lemma split_nl_hd: "hd (split_nl s) = takeWhile (\<lambda>c. c \<noteq> CHR 0x0A) s"
  by (induction s) (auto split: list.splits simp: split_nl_nonempty)

lemma split_nl_no_nl: "l \<in> set (split_nl s) \<Longrightarrow> CHR 0x0A \<notin> set l"
  by (induction s arbitrary: l) (auto split: list.splits if_splits)

lemma split_nl_plain: "CHR 0x0A \<notin> set s \<Longrightarrow> split_nl s = [s]"
  by (induction s) auto

lemma split_nl_append_nl:
  "CHR 0x0A \<notin> set l \<Longrightarrow> split_nl (l @ CHR 0x0A # r) = l # split_nl r"
  by (induction l) auto

lemma split_join: "ls \<noteq> [] \<Longrightarrow> \<forall>l\<in>set ls. CHR 0x0A \<notin> set l \<Longrightarrow> split_nl (join_nl ls) = ls"
proof (induction ls rule: join_nl.induct)
  case 1 then show ?case by simp
next
  case (2 l) then show ?case by (simp add: split_nl_plain)
next
  case (3 l v va)
  then show ?case by (simp add: split_nl_append_nl)
qed

lemma strip_space_cons: "isspace c \<Longrightarrow> strip (c # s) = strip s"
  by (simp add: strip_def lstrip_def)

lemma strip_rev: "strip (rev s) = rev (strip s)"
proof -
  have a: "lstrip (rev s) = rev (rstrip s)" by (simp add: lstrip_def rstrip_def)
  have c: "rstrip (lstrip t) = lstrip (rstrip t)" for t
  proof (cases "\<forall>c\<in>set t. isspace c")
    case True
    then have e1: "dropWhile isspace t = []" and e2: "dropWhile isspace (rev t) = []"
      by (simp_all add: dropWhile_eq_Nil_conv)
    show ?thesis unfolding lstrip_def rstrip_def e1 e2 by simp
  next
    case False
    have t: "t = takeWhile isspace t @ lstrip t" by (simp add: lstrip_def)
    have ne: "\<not> (\<forall>c\<in>set (lstrip t). isspace c)"
      using False unfolding lstrip_def by (metis dropWhile_eq_Nil_conv hd_dropWhile hd_in_set)
    have "rstrip t = takeWhile isspace t @ rstrip (lstrip t)"
      using rstrip_append[of "takeWhile isspace t" "lstrip t"] ne t by simp
    moreover have "rstrip (lstrip t) \<noteq> [] \<and> \<not> isspace (hd (rstrip (lstrip t)))"
    proof -
      have p: "prefix (rstrip (lstrip t)) (lstrip t)" by (rule lstrip_rstrip_prefix)
      have n: "rstrip (lstrip t) \<noteq> []" using ne by (auto simp: rstrip_def)
      then have "hd (rstrip (lstrip t)) = hd (lstrip t)" using p by (metis hd_append2 prefix_def)
      moreover have "lstrip t \<noteq> []" using ne by auto
      ultimately show ?thesis using n lstrip_head[of t] by auto
    qed
    ultimately show ?thesis
      by (cases "rstrip (lstrip t)") (auto simp: lstrip_def dropWhile_append dest: set_takeWhileD)
  qed
  have "strip (rev s) = rstrip (rev (rstrip s))" by (simp add: strip_def a)
  also have "\<dots> = rev (lstrip (rstrip s))" by (simp add: rstrip_def lstrip_def)
  also have "\<dots> = rev (strip s)" by (simp add: strip_def c)
  finally show ?thesis .
qed


lemma isspace_nl: "isspace (CHR 0x0A)"
  by (simp add: isspace_def)

lemma lines_lstrip:
  "l' \<in> set (split_nl (lstrip w)) \<Longrightarrow> \<exists>l\<in>set (split_nl w). strip l' = strip l"
proof (induction w arbitrary: l')
  case Nil
  then show ?case by (simp add: lstrip_def)
next
  case (Cons c cs)
  show ?case
  proof (cases "isspace c")
    case False
    then have "lstrip (c # cs) = c # cs" by (simp add: lstrip_def)
    then show ?thesis using Cons.prems by auto
  next
    case True
    then have "lstrip (c # cs) = lstrip cs" by (simp add: lstrip_def)
    then obtain l where l: "l \<in> set (split_nl cs)" "strip l' = strip l"
      using Cons by auto
    show ?thesis
    proof (cases "c = CHR 0x0A")
      case True then show ?thesis using l by auto
    next
      case False
      obtain h t where ht: "split_nl cs = h # t" using split_nl_nonempty by (cases "split_nl cs") auto
      then have sp: "split_nl (c # cs) = (c # h) # t" using False by simp
      show ?thesis
      proof (cases "l = h")
        case True
        then have "strip l' = strip (c # h)" using l \<open>isspace c\<close> by (simp add: strip_space_cons)
        then show ?thesis unfolding sp by auto
      next
        case False
        then have "l \<in> set t" using l ht by auto
        then show ?thesis unfolding sp using l by auto
      qed
    qed
  qed
qed

lemma split_nl_snoc:
  "split_nl (s @ [c]) =
     (if c = CHR 0x0A then split_nl s @ [[]]
      else butlast (split_nl s) @ [last (split_nl s) @ [c]])"
proof (induction s)
  case Nil then show ?case by simp
next
  case (Cons a s)
  obtain h t where ht: "split_nl s = h # t" using split_nl_nonempty by (cases "split_nl s") auto
  show ?case using Cons ht by (auto split: list.splits)
qed

lemma split_nl_rev: "split_nl (rev w) = rev (map rev (split_nl w))"
proof (induction w)
  case Nil then show ?case by simp
next
  case (Cons c cs)
  obtain h t where ht: "split_nl cs = h # t" using split_nl_nonempty by (cases "split_nl cs") auto
  show ?case using Cons ht by (auto simp: split_nl_snoc)
qed

lemma lines_rstrip:
  assumes "l' \<in> set (split_nl (rstrip w))"
  shows "\<exists>l\<in>set (split_nl w). strip l' = strip l"
proof -
  have "rstrip w = rev (lstrip (rev w))" by (simp add: rstrip_def lstrip_def)
  then have "rev l' \<in> set (split_nl (lstrip (rev w)))"
    using assms by (auto simp: split_nl_rev)
  then obtain l where l: "l \<in> set (split_nl (rev w))" "strip (rev l') = strip l"
    using lines_lstrip by blast
  then have "rev l \<in> set (split_nl w)" by (auto simp: split_nl_rev)
  moreover have "strip l' = strip (rev l)" using l(2) by (metis rev_rev_ident strip_rev)
  ultimately show ?thesis by blast
qed

lemma lines_strip:
  assumes "l' \<in> set (split_nl (strip w))"
  shows "\<exists>l\<in>set (split_nl w). strip l' = strip l"
proof -
  have "l' \<in> set (split_nl (rstrip (lstrip w)))" using assms by (simp add: strip_def)
  then obtain m where m: "m \<in> set (split_nl (lstrip w))" "strip l' = strip m"
    by (rule lines_rstrip[THEN bexE])
  from m(1) obtain l where "l \<in> set (split_nl w)" "strip m = strip l"
    using lines_lstrip by blast
  with m(2) show ?thesis by auto
qed

lemma looks_like_code_cong: "strip a = strip b \<Longrightarrow> looks_like_code a = looks_like_code b"
  by (simp add: looks_like_code_def)

lemma find_code_start_none:
  "\<forall>l\<in>set ls. \<not> looks_like_code l \<Longrightarrow> find_code_start i ls = 0"
  by (induction ls arbitrary: i) auto

lemma drop_preamble_no_code:
  assumes "\<forall>l\<in>set (split_nl w). \<not> looks_like_code l"
  shows "drop_preamble w = strip w" and "drop_preamble (strip w) = strip w"
proof -
  show "drop_preamble w = strip w"
    using assms by (simp add: drop_preamble_def find_code_start_none)
  have "\<forall>l\<in>set (split_nl (strip w)). \<not> looks_like_code l"
  proof
    fix l' assume "l' \<in> set (split_nl (strip w))"
    then obtain l where l: "l \<in> set (split_nl w)" "strip l' = strip l"
      using lines_strip by blast
    from l(2) have "looks_like_code l' = looks_like_code l" by (rule looks_like_code_cong)
    with l(1) assms show "\<not> looks_like_code l'" by simp
  qed
  then show "drop_preamble (strip w) = strip w"
    by (simp add: drop_preamble_def find_code_start_none strip_idem)
qed

lemma rstrip_lstrip_commute: "rstrip (lstrip t) = lstrip (rstrip t)"
proof (cases "\<forall>c\<in>set t. isspace c")
  case True
  then have e1: "dropWhile isspace t = []" and e2: "dropWhile isspace (rev t) = []"
    by (simp_all add: dropWhile_eq_Nil_conv)
  show ?thesis unfolding lstrip_def rstrip_def e1 e2 by simp
next
  case False
  have t: "t = takeWhile isspace t @ lstrip t" by (simp add: lstrip_def)
  have ne: "\<not> (\<forall>c\<in>set (lstrip t). isspace c)"
    using False unfolding lstrip_def by (metis dropWhile_eq_Nil_conv hd_dropWhile hd_in_set)
  have "rstrip t = takeWhile isspace t @ rstrip (lstrip t)"
    using rstrip_append[of "takeWhile isspace t" "lstrip t"] ne t by simp
  moreover have "rstrip (lstrip t) \<noteq> [] \<and> \<not> isspace (hd (rstrip (lstrip t)))"
  proof -
    have p: "prefix (rstrip (lstrip t)) (lstrip t)" by (rule lstrip_rstrip_prefix)
    have n: "rstrip (lstrip t) \<noteq> []" using ne by (auto simp: rstrip_def)
    then have "hd (rstrip (lstrip t)) = hd (lstrip t)" using p by (metis hd_append2 prefix_def)
    moreover have "lstrip t \<noteq> []" using ne by auto
    ultimately show ?thesis using n lstrip_head[of t] by auto
  qed
  ultimately show ?thesis
    by (cases "rstrip (lstrip t)") (auto simp: lstrip_def dropWhile_append dest: set_takeWhileD)
qed

lemma strip_rstrip: "strip (rstrip s) = strip s"
  by (simp add: strip_def rstrip_lstrip_commute[symmetric] rstrip_idem)

lemma strip_lstrip: "strip (lstrip s) = strip s"
  by (simp add: strip_def lstrip_idem)

lemma first_line_lstrip:
  "strip (hd (split_nl w)) \<noteq> [] \<Longrightarrow> strip (hd (split_nl (lstrip w))) = strip (hd (split_nl w))"
proof (induction w)
  case Nil then show ?case by (simp add: lstrip_def)
next
  case (Cons c cs)
  show ?case
  proof (cases "isspace c")
    case False then show ?thesis by (simp add: lstrip_def)
  next
    case True
    have nnl: "c \<noteq> CHR 0x0A"
    proof
      assume "c = CHR 0x0A"
      then have "hd (split_nl (c # cs)) = []" by simp
      with Cons.prems show False by (simp add: strip_def lstrip_def rstrip_def)
    qed
    obtain h t where ht: "split_nl cs = h # t" using split_nl_nonempty by (cases "split_nl cs") auto
    have hd1: "hd (split_nl (c # cs)) = c # h" using nnl ht by simp
    have "strip (c # h) = strip h" using True by (rule strip_space_cons)
    with Cons.prems hd1 ht have "strip (hd (split_nl cs)) \<noteq> []" by simp
    then have "strip (hd (split_nl (lstrip cs))) = strip (hd (split_nl cs))" by (rule Cons.IH)
    moreover have "lstrip (c # cs) = lstrip cs" using True by (simp add: lstrip_def)
    ultimately show ?thesis using hd1 ht \<open>strip (c # h) = strip h\<close> by simp
  qed
qed

lemma first_line_rstrip:
  assumes "strip (hd (split_nl v)) \<noteq> []"
  shows "strip (hd (split_nl (rstrip v))) = strip (hd (split_nl v))"
proof -
  define l where "l = takeWhile (\<lambda>c. c \<noteq> CHR 0x0A) v"
  define r where "r = dropWhile (\<lambda>c. c \<noteq> CHR 0x0A) v"
  have v: "v = l @ r" by (simp add: l_def r_def)
  have lnl: "CHR 0x0A \<notin> set l" unfolding l_def by (auto dest: set_takeWhileD)
  have hl: "hd (split_nl v) = l" by (simp add: split_nl_hd l_def)
  show ?thesis
  proof (cases "\<forall>c\<in>set r. isspace c")
    case True
    then have "rstrip v = rstrip l" unfolding v by (simp add: rstrip_append)
    moreover have "CHR 0x0A \<notin> set (rstrip l)"
      using lnl set_mono_prefix[OF lstrip_rstrip_prefix[of l]] by blast
    ultimately have "hd (split_nl (rstrip v)) = rstrip l" by (simp add: split_nl_plain)
    then show ?thesis by (simp add: hl strip_rstrip)
  next
    case False
    then have "r \<noteq> []" by auto
    then have "hd r = CHR 0x0A"
      using hd_dropWhile[of "\<lambda>c. c \<noteq> CHR 0x0A" v] by (simp add: r_def)
    then obtain r' where r': "r = CHR 0x0A # r'" using \<open>r \<noteq> []\<close> by (cases r) auto
    have "\<not> (\<forall>c\<in>set r'. isspace c)" using False r' by (auto simp: isspace_nl)
    then have "rstrip ([CHR 0x0A] @ r') = [CHR 0x0A] @ rstrip r'" by (simp only: rstrip_append if_False)
    then have "rstrip r = CHR 0x0A # rstrip r'" using r' by simp
    moreover have "rstrip (l @ r) = l @ rstrip r" using False by (simp only: rstrip_append if_False)
    then have "rstrip v = l @ rstrip r" using v by simp
    ultimately have "hd (split_nl (rstrip v)) = l" using lnl by (simp add: split_nl_append_nl)
    then show ?thesis by (simp add: hl)
  qed
qed

lemma first_line_strip:
  assumes "strip (hd (split_nl w)) \<noteq> []"
  shows "strip (hd (split_nl (strip w))) = strip (hd (split_nl w))"
proof -
  have a: "strip (hd (split_nl (lstrip w))) = strip (hd (split_nl w))"
    using assms by (rule first_line_lstrip)
  with assms have "strip (hd (split_nl (lstrip w))) \<noteq> []" by simp
  then have "strip (hd (split_nl (rstrip (lstrip w)))) = strip (hd (split_nl (lstrip w)))"
    by (rule first_line_rstrip)
  with a show ?thesis by (simp add: strip_def)
qed

lemma find_code_start_hd:
  "looks_like_code (hd ls) \<Longrightarrow> ls \<noteq> [] \<Longrightarrow> find_code_start i ls = i"
  by (cases ls) auto

lemma drop_preamble_first_line:
  assumes "looks_like_code (hd (split_nl w))"
  shows "drop_preamble (strip w) = strip w"
proof -
  from assms have ne: "strip (hd (split_nl w)) \<noteq> []" by (simp add: looks_like_code_def Let_def)
  then have "strip (hd (split_nl (strip w))) = strip (hd (split_nl w))" by (rule first_line_strip)
  then have "looks_like_code (hd (split_nl (strip w))) = looks_like_code (hd (split_nl w))"
    by (rule looks_like_code_cong)
  with assms have "looks_like_code (hd (split_nl (strip w)))" by simp
  then have "find_code_start 0 (split_nl (strip w)) = 0"
    by (rule find_code_start_hd) (rule split_nl_nonempty)
  then show ?thesis by (simp add: drop_preamble_def strip_idem)
qed

lemma find_code_start_some:
  "\<exists>l\<in>set ls. looks_like_code l \<Longrightarrow>
   \<exists>j<length ls. find_code_start i ls = i + j \<and> looks_like_code (ls ! j)"
proof (induction ls arbitrary: i)
  case Nil then show ?case by simp
next
  case (Cons l ls)
  show ?case
  proof (cases "looks_like_code l")
    case True
    then have "find_code_start i (l # ls) = i + 0 \<and> looks_like_code ((l # ls) ! 0)" by simp
    then show ?thesis by blast
  next
    case False
    with Cons.prems have "\<exists>l\<in>set ls. looks_like_code l" by simp
    then obtain j where j: "j < length ls" "find_code_start (Suc i) ls = Suc i + j"
      "looks_like_code (ls ! j)" using Cons.IH by blast
    then have "Suc j < length (l # ls) \<and> find_code_start i (l # ls) = i + Suc j
        \<and> looks_like_code ((l # ls) ! Suc j)" using False by simp
    then show ?thesis by blast
  qed
qed

lemma drop_preamble_idem: "drop_preamble (drop_preamble z) = drop_preamble z"
proof (cases "\<exists>l\<in>set (split_nl z). looks_like_code l")
  case False
  then have "\<forall>l\<in>set (split_nl z). \<not> looks_like_code l" by simp
  then show ?thesis using drop_preamble_no_code by simp
next
  case True
  then obtain j where j: "j < length (split_nl z)" "find_code_start 0 (split_nl z) = j"
    "looks_like_code (split_nl z ! j)" using find_code_start_some[of "split_nl z" 0] by auto
  show ?thesis
  proof (cases "j = 0")
    case True
    then have "looks_like_code (hd (split_nl z))" using j(3) split_nl_nonempty[of z]
      by (simp add: hd_conv_nth)
    then have "drop_preamble (strip z) = strip z" by (rule drop_preamble_first_line)
    moreover have "drop_preamble z = strip z" using True j(2) by (simp add: drop_preamble_def)
    ultimately show ?thesis by simp
  next
    case False
    define w where "w = join_nl (drop j (split_nl z))"
    have ne: "drop j (split_nl z) \<noteq> []" using j(1) by simp
    have "\<forall>l\<in>set (drop j (split_nl z)). CHR 0x0A \<notin> set l"
      using split_nl_no_nl by (meson in_set_dropD)
    with ne have sw: "split_nl w = drop j (split_nl z)" unfolding w_def by (rule split_join)
    have "hd (split_nl w) = split_nl z ! j" using j(1) by (simp add: sw hd_drop_conv_nth)
    with j(3) have "looks_like_code (hd (split_nl w))" by simp
    then have "drop_preamble (strip w) = strip w" by (rule drop_preamble_first_line)
    moreover have "drop_preamble z = strip w" using False j(2) by (simp add: drop_preamble_def w_def)
    ultimately show ?thesis by simp
  qed
qed

lemma join_split: "join_nl (split_nl z) = z"
proof (induction z)
  case Nil then show ?case by simp
next
  case (Cons c cs)
  obtain h t where ht: "split_nl cs = h # t" using split_nl_nonempty by (cases "split_nl cs") auto
  show ?case using Cons ht by (cases t) auto
qed

lemma join_drop_suffix: "i < length ls \<Longrightarrow> suffix (join_nl (drop i ls)) (join_nl ls)"
proof (induction ls arbitrary: i rule: join_nl.induct)
  case 1 then show ?case by simp
next
  case (2 l) then show ?case by simp
next
  case (3 l v va)
  show ?case
  proof (cases i)
    case 0 then show ?thesis by simp
  next
    case (Suc k)
    then have "suffix (join_nl (drop k (v # va))) (join_nl (v # va))" using 3 by simp
    then have "suffix (join_nl (drop k (v # va))) ((l @ [CHR 0x0A]) @ join_nl (v # va))"
      by (rule suffix_appendI)
    then show ?thesis using Suc by simp
  qed
qed

lemma drop_preamble_sublist: "sublist (drop_preamble z) z"
proof (cases "\<exists>l\<in>set (split_nl z). looks_like_code l")
  case False
  then have "drop_preamble z = strip z" using drop_preamble_no_code by simp
  then show ?thesis by (simp add: strip_sublist)
next
  case True
  then obtain j where j: "j < length (split_nl z)" "find_code_start 0 (split_nl z) = j"
    using find_code_start_some[of "split_nl z" 0] by auto
  show ?thesis
  proof (cases "j = 0")
    case True
    then have "drop_preamble z = strip z" using j(2) by (simp add: drop_preamble_def)
    then show ?thesis by (simp add: strip_sublist)
  next
    case False
    then have d: "drop_preamble z = strip (join_nl (drop j (split_nl z)))"
      using j(2) by (simp add: drop_preamble_def)
    have "suffix (join_nl (drop j (split_nl z))) (join_nl (split_nl z))"
      using j(1) by (rule join_drop_suffix)
    then have "sublist (join_nl (drop j (split_nl z))) z" by (simp add: join_split suffix_imp_sublist)
    with strip_sublist[of "join_nl (drop j (split_nl z))"] show ?thesis
      unfolding d by (rule sublist_order.order.trans)
  qed
qed

lemma until_fence_prefix: "until_fence s = Some m \<Longrightarrow> prefix m s"
  by (induction s arbitrary: m) (auto split: if_splits)

lemma until_fence_clean: "until_fence s = Some m \<Longrightarrow> \<not> sublist ''```'' m"
proof (induction s arbitrary: m)
  case Nil then show ?case by simp
next
  case (Cons c cs)
  show ?case
  proof (cases "prefix ''```'' (c # cs)")
    case True
    with Cons.prems have "m = []" by (simp only: until_fence.simps if_True option.inject)
    then show ?thesis by simp
  next
    case False
    with Cons.prems have "map_option (Cons c) (until_fence cs) = Some m"
      by (simp only: until_fence.simps if_False)
    then obtain m' where m': "until_fence cs = Some m'" "m = c # m'" by auto
    have "\<not> sublist ''```'' m'" using m'(1) by (rule Cons.IH)
    moreover have "\<not> prefix ''```'' (c # m')"
    proof
      assume "prefix ''```'' (c # m')"
      moreover have "prefix (c # m') (c # cs)" using until_fence_prefix[OF m'(1)] by simp
      ultimately have "prefix ''```'' (c # cs)" by (rule prefix_order.trans)
      with False show False by blast
    qed
    ultimately show ?thesis unfolding m'(2) by (simp only: sublist_Cons_right) blast
  qed
qed

lemma findall_first_clean: "findall_first s = Some m \<Longrightarrow> \<not> sublist ''```'' m"
proof (induction s)
  case Nil then show ?case by simp
next
  case (Cons c cs)
  show ?case
  proof (cases "fence_match_at (c # cs)")
    case None
    with Cons show ?thesis by simp
  next
    case (Some g)
    with Cons.prems have "g = m" by simp
    with Some obtain body where "until_fence body = Some m"
      by (auto simp: fence_match_at_def split: option.splits)
    then show ?thesis by (rule until_fence_clean)
  qed
qed

lemma str_remove_Nil: "str_remove old [] = []"
  by (subst str_remove.simps) auto

lemma str_remove_skip:
  "\<not> prefix old (c # cs) \<Longrightarrow> str_remove old (c # cs) = c # str_remove old cs"
  by (subst str_remove.simps) (simp only: simp_thms if_False list.case)

lemma str_remove_hit:
  "old \<noteq> [] \<Longrightarrow> prefix old s \<Longrightarrow> str_remove old s = str_remove old (drop (length old) s)"
  by (subst str_remove.simps) (simp only: simp_thms if_True)

lemma fence_prefix_iff:
  "prefix ''```'' s \<longleftrightarrow> (\<exists>r. s = CHR ''`'' # CHR ''`'' # CHR ''`'' # r)"
  by (auto simp: prefix_def)

lemma str_remove_no_prefix: "\<not> prefix ''```'' (str_remove ''```'' s)"
proof (induction "''```''" s rule: str_remove.induct)
  case (1 s)
  show ?case
  proof (cases "prefix ''```'' s")
    case True
    have "\<not> prefix ''```'' (str_remove ''```'' (drop (length ''```'') s))"
      using True by (intro "1.hyps"(1)) simp
    then show ?thesis using str_remove_hit[OF _ True] by simp
  next
    case False
    show ?thesis
    proof (cases s)
      case Nil
      then show ?thesis by (simp add: str_remove_Nil)
    next
      case (Cons c cs)
      have r: "str_remove ''```'' s = c # str_remove ''```'' cs"
        using False unfolding Cons by (rule str_remove_skip)
      show ?thesis
      proof (cases "c = CHR ''`''")
        case False then show ?thesis unfolding r by (auto simp: fence_prefix_iff)
      next
        case c: True
        show ?thesis
        proof (cases cs)
          case Nil
          then show ?thesis unfolding r by (auto simp: str_remove_Nil fence_prefix_iff)
        next
          case (Cons d ds)
          note cs = Cons
          show ?thesis
          proof (cases "d = CHR ''`''")
            case False
            then have "\<not> prefix ''```'' (d # ds)" by (auto simp: fence_prefix_iff)
            then have "str_remove ''```'' (d # ds) = d # str_remove ''```'' ds"
              by (rule str_remove_skip)
            then show ?thesis unfolding r cs using False by (auto simp: fence_prefix_iff)
          next
            case d: True
            show ?thesis
            proof (cases ds)
              case Nil
              have "\<not> prefix ''```'' [d]" by (auto simp: fence_prefix_iff)
              then have "str_remove ''```'' [d] = [d]"
                by (simp add: str_remove_skip str_remove_Nil)
              then show ?thesis unfolding r cs Nil by (auto simp: fence_prefix_iff)
            next
              case (Cons e es)
              have e: "e \<noteq> CHR ''`''"
                using False \<open>s = c # cs\<close> cs Cons c d by (auto simp: fence_prefix_iff)
              then have "\<not> prefix ''```'' (d # e # es)" "\<not> prefix ''```'' (e # es)"
                by (auto simp: fence_prefix_iff)
              then have "str_remove ''```'' (d # e # es) = d # e # str_remove ''```'' es"
                by (simp add: str_remove_skip)
              then show ?thesis unfolding r cs Cons using e by (auto simp: fence_prefix_iff)
            qed
          qed
        qed
      qed
    qed
  qed
qed

lemma str_remove_clean: "\<not> sublist ''```'' (str_remove ''```'' s)"
proof (induction "''```''" s rule: str_remove.induct)
  case (1 s)
  show ?case
  proof (cases "prefix ''```'' s")
    case True
    have "\<not> sublist ''```'' (str_remove ''```'' (drop (length ''```'') s))"
      using True by (intro "1.hyps"(1)) simp
    then show ?thesis using str_remove_hit[OF _ True] by simp
  next
    case False
    show ?thesis
    proof (cases s)
      case Nil
      then show ?thesis by (simp add: str_remove_Nil)
    next
      case (Cons c cs)
      have r: "str_remove ''```'' s = c # str_remove ''```'' cs"
        using False unfolding Cons by (rule str_remove_skip)
      have "\<not> sublist ''```'' (str_remove ''```'' cs)"
        using False Cons by (intro "1.hyps"(2)) simp_all
      moreover have "\<not> prefix ''```'' (c # str_remove ''```'' cs)"
        using str_remove_no_prefix[of s] unfolding r .
      ultimately show ?thesis unfolding r by (simp only: sublist_Cons_right) blast
    qed
  qed
qed

lemma sublist_strip_clean: "\<not> sublist ''```'' s \<Longrightarrow> \<not> sublist ''```'' (strip s)"
  using strip_sublist sublist_order.order.trans by blast

lemma strip_fences_clean: "\<not> sublist ''```'' (strip_fences txt)"
proof (cases "sublist ''```'' txt")
  case False then show ?thesis by (simp add: strip_fences_def)
next
  case True
  show ?thesis
  proof (cases "findall_first txt")
    case None
    then have "strip_fences txt =
        strip (str_remove ''```'' (str_remove ''```py'' (str_remove ''```python'' txt)))"
      using True by (simp add: strip_fences_def)
    then show ?thesis using sublist_strip_clean[OF str_remove_clean] by simp
  next
    case (Some m)
    then have "strip_fences txt = strip m" using True by (simp add: strip_fences_def)
    then show ?thesis using sublist_strip_clean[OF findall_first_clean[OF Some]] by simp
  qed
qed

text \<open>
  C7: the Code Sanitizer is idempotent: cleaning an already cleaned text changes nothing,
  for every input text.
\<close>

theorem clean_code_idempotent: "clean_code (clean_code x) = clean_code x"
proof -
  have "\<not> sublist ''```'' (clean_code x)"
    unfolding clean_code_def
    using strip_fences_clean[of x] drop_preamble_sublist[of "strip_fences x"]
      sublist_order.order.trans by blast
  then have "strip_fences (clean_code x) = clean_code x" by (simp add: strip_fences_def)
  then have "clean_code (clean_code x) = drop_preamble (clean_code x)"
    by (simp add: clean_code_def)
  also have "\<dots> = clean_code x" by (simp add: clean_code_def drop_preamble_idem)
  finally show ?thesis .
qed

section \<open>Lemmas about the service\<close>

text \<open>
  A dict built from pairs has distinct keys, and each key maps to its last value.
\<close>

lemma map_of_dict_set: "map_of (dict_set k v d) = (map_of d)(k \<mapsto> v)"
  by (induction d) (auto simp: fun_eq_iff)

lemma set_dict_set_keys: "fst ` set (dict_set k v d) = insert k (fst ` set d)"
proof (induction d)
  case Nil then show ?case by simp
next
  case (Cons p d)
  obtain k' v' where p: "p = (k', v')" by (cases p)
  show ?case using Cons p by (cases "k = k'") (simp_all add: insert_commute)
qed

lemma distinct_dict_set: "distinct (map fst d) \<Longrightarrow> distinct (map fst (dict_set k v d))"
proof (induction d)
  case Nil then show ?case by simp
next
  case (Cons p d)
  obtain k' v' where p: "p = (k', v')" by (cases p)
  show ?case
  proof (cases "k = k'")
    case True with Cons.prems p show ?thesis by simp
  next
    case False
    have "k' \<notin> fst ` set (dict_set k v d)"
      using Cons.prems p False by (simp add: set_dict_set_keys)
    with Cons p False show ?thesis by simp
  qed
qed

lemma foldl_dict_set:
  "distinct (map fst d0) \<Longrightarrow>
   distinct (map fst (foldl (\<lambda>d (k, v). dict_set k v d) d0 kvs))
   \<and> map_of (foldl (\<lambda>d (k, v). dict_set k v d) d0 kvs) = map_of d0 ++ map_of (rev kvs)"
proof (induction kvs arbitrary: d0)
  case Nil then show ?case by simp
next
  case (Cons p kvs)
  obtain k v where p: "p = (k, v)" by (cases p)
  have d: "distinct (map fst (dict_set k v d0))" using Cons.prems by (rule distinct_dict_set)
  have "map_of (dict_set k v d0) ++ map_of (rev kvs) = map_of d0 ++ map_of (rev kvs @ [(k, v)])"
    by (simp add: map_of_dict_set map_of_append fun_eq_iff map_add_def split: option.splits)
  with Cons.IH[OF d] p show ?case by simp
qed

lemma dict_of_props:
  "distinct (map fst (dict_of kvs)) \<and> map_of (dict_of kvs) = map_of (rev kvs)"
  using foldl_dict_set[of "[]" kvs] by (simp add: dict_of_def)

text \<open>
  The sanitizer, the name normalization and the statements of the fragment, evaluated on
  the texts of the examples.
\<close>

lemma normalize_name_Data: "normalize_name ''Data'' = ''data''"
  by code_simp

lemma clean_code_divide: "clean_code (strip ''result = 1 / 0'') = ''result = 1 / 0''"
  by code_simp

lemma clean_code_exit: "clean_code (strip ''raise SystemExit'') = ''raise SystemExit''"
  by code_simp

lemma clean_code_count: "clean_code (strip ''result = len(data)'') = ''result = len(data)''"
  by code_simp

lemma clean_code_timedelta:
  "clean_code (strip ''result = np.timedelta64(1, 'D')'') = ''result = np.timedelta64(1, 'D')''"
  by code_simp

lemma clean_code_reads_host: "clean_code (strip reads_host) = reads_host"
  by code_simp

lemma clean_code_wipes_table: "clean_code (strip wipes_table) = wipes_table"
  by code_simp

lemma clean_code_raises_budget: "clean_code (strip raises_budget) = raises_budget"
  by code_simp

lemma split_nl_divide: "split_nl ''result = 1 / 0'' = [''result = 1 / 0'']"
  by code_simp

lemma split_nl_exit: "split_nl ''raise SystemExit'' = [''raise SystemExit'']"
  by code_simp

lemma split_nl_count: "split_nl ''result = len(data)'' = [''result = len(data)'']"
  by code_simp

lemma split_nl_timedelta:
  "split_nl ''result = np.timedelta64(1, 'D')'' = [''result = np.timedelta64(1, 'D')'']"
  by code_simp

lemma split_nl_reads_host: "split_nl reads_host = [''import os'', ''result = os.name'']"
  by code_simp

lemma split_nl_wipes_table:
  "split_nl wipes_table = [''data.drop(data.index, inplace=True)'', ''result = 1 / 0'']"
  by code_simp

lemma split_nl_raises_budget:
  "split_nl raises_budget = [''import app.services.agentic_analyst as m'',
                             ''m.agentic_analyst.max_attempts = 5'', ''result = 1 / 0'']"
  by code_simp

lemma strip_explanation: "strip ''Done.'' = ''Done.''"
  by code_simp

lemma run_divide: "run_statement ''result = 1 / 0'' s = Inl (Exception ''division by zero'')"
  by (cases s) (simp add: run_statement_def)

lemma run_exit:
  "run_statement ''raise SystemExit'' (ns, h, a) =
     (if name_resolves ns ''SystemExit'' then Inl (BaseException '''')
      else Inl (name_error ''SystemExit''))"
  by (simp add: run_statement_def)

lemma run_import_os:
  "run_statement ''import os'' (ns, h, a) =
     (if name_resolves ns ''__import__'' then bind_new ''os'' (ObjectV ''os'') (ns, h, a)
      else Inl (Exception ''__import__ not found''))"
  by (simp add: run_statement_def)

lemma run_os_name:
  "run_statement ''result = os.name'' (ns, h, a) =
     (case ns ''os'' of
        None \<Rightarrow> Inl (name_error ''os'')
      | Some r \<Rightarrow> bind_new ''result'' (StrV ''posix'') (ns, h, a))"
  by (simp add: run_statement_def)

lemma run_count:
  "run_statement ''result = len(data)'' (ns, h, a) =
     (case ns ''len'' of
        None \<Rightarrow> Inl (name_error ''len'')
      | Some f \<Rightarrow>
          (case ns ''data'' of
             None \<Rightarrow> Inl (name_error ''data'')
           | Some r \<Rightarrow>
               (case objs h r of
                  DataFrameV cols rows \<Rightarrow>
                    bind_new ''result'' (IntV (int (length rows))) (ns, h, a)
                | v \<Rightarrow> Inl (Exception ''object has no len()''))))"
  by (simp add: run_statement_def)

lemma run_wipe:
  "run_statement ''data.drop(data.index, inplace=True)'' (ns, h, a) =
     (case ns ''data'' of
        None \<Rightarrow> Inl (name_error ''data'')
      | Some r \<Rightarrow>
          (case objs h r of
             DataFrameV cols rows \<Rightarrow>
               Inr (ns, h\<lparr>objs := (objs h)(r := DataFrameV cols [])\<rparr>, a)
           | v \<Rightarrow> Inl (Exception ''object has no attribute drop'')))"
  by (simp add: run_statement_def)

lemma run_timedelta:
  "run_statement ''result = np.timedelta64(1, 'D')'' (ns, h, a) =
     (case ns ''np'' of
        None \<Rightarrow> Inl (name_error ''np'')
      | Some r \<Rightarrow> bind_new ''result'' (NpIntegerV ''numpy.timedelta64(1,'D')'') (ns, h, a))"
  by (simp add: run_statement_def)

lemma run_import_service:
  "run_statement ''import app.services.agentic_analyst as m'' (ns, h, a) =
     (if name_resolves ns ''__import__''
      then bind_new ''m'' (ObjectV ''app.services.agentic_analyst'') (ns, h, a)
      else Inl (Exception ''__import__ not found''))"
  by (simp add: run_statement_def)

lemma run_set_budget:
  "run_statement ''m.agentic_analyst.max_attempts = 5'' (ns, h, a) =
     (case ns ''m'' of
        None \<Rightarrow> Inl (name_error ''m'')
      | Some r \<Rightarrow> Inr (ns, h, a\<lparr>max_attempts := 5\<rparr>))"
  by (simp add: run_statement_def)

lemma upt_3: "[0..<3] = [0, 1, 2]"
  by (simp add: upt_rec)

lemma max_attempts_init: "max_attempts init = 3"
  by (simp add: init_def)

lemma safe_globals_init:
  "safe_globals init = map_of (zip whitelist [0..<length whitelist])"
  by (simp add: init_def)

text \<open>
  \<open>execute_code\<close> with the run named once.
\<close>

lemma execute_code_run:
  "execute_code E code_text df_dict w =
     (let r = run_exec E code_text (with_builtins (exec_globals_of (self_obj w) df_dict))
                (heap w) (self_obj w)
      in case raised r of
           Some e \<Rightarrow>
             (Inl (reraise E e),
              w\<lparr>self_obj := analyst_after r, heap := store_after r,
                exec_log := exec_log w @ [\<lparr>call_code = code_text,
                   call_globals = with_builtins (exec_globals_of (self_obj w) df_dict),
                   call_store = heap w, call_self = self_obj w\<rparr>]\<rparr>)
         | None \<Rightarrow>
             (case (case globals_after r ''result'' of
                      None \<Rightarrow> Inr NoneV
                    | Some ref \<Rightarrow> serialize_result E (objs (store_after r) ref)) of
                Inl e \<Rightarrow>
                  (Inl (reraise E e),
                   w\<lparr>self_obj := analyst_after r, heap := store_after r,
                     exec_log := exec_log w @ [\<lparr>call_code = code_text,
                        call_globals = with_builtins (exec_globals_of (self_obj w) df_dict),
                        call_store = heap w, call_self = self_obj w\<rparr>]\<rparr>)
              | Inr result \<Rightarrow>
                  (Inr \<lparr>value = result, output = stdout_text r,
                        errors = (if stderr_text r \<noteq> [] then Some (stderr_text r) else None)\<rparr>,
                   w\<lparr>self_obj := analyst_after r, heap := store_after r,
                     exec_log := exec_log w @ [\<lparr>call_code = code_text,
                        call_globals = with_builtins (exec_globals_of (self_obj w) df_dict),
                        call_store = heap w, call_self = self_obj w\<rparr>]\<rparr>)))"
  by (simp add: execute_code_def Let_def)

text \<open>
  The equations by which the service is run on concrete collaborators.
\<close>

lemmas eval_simps =
  analyze_def outer_handler_def load_excel_sheets_def attempt_body_def
  generate_analysis_code_def execute_code_run generate_explanation_def
  metadata_get_def py_get_def fstring_def reraise_def execution_error_def
  scenario_def generating_def workbook_def missing_workbook_def python_run_def
  bind_new_def name_resolves_def some_builtins_def name_error_def
  alloc_def initial_world_def host_store_def builtins_ref_def exec_globals_of_def
  with_builtins_def run_of_def
  dropna_rows_def dropna_columns_def df_empty_def isna_def cell_def
  two_rows_def blank_sheet_def Let_def upt_3 max_attempts_init safe_globals_init whitelist_def
  normalize_name_Data
  clean_code_divide clean_code_exit clean_code_count clean_code_timedelta
  clean_code_reads_host clean_code_wipes_table clean_code_raises_budget
  split_nl_divide split_nl_exit split_nl_count split_nl_timedelta
  split_nl_reads_host split_nl_wipes_table split_nl_raises_budget strip_explanation
  run_divide run_exit run_import_os run_os_name run_count run_wipe run_timedelta
  run_import_service run_set_budget


lemma load_sheets_reads_ok:
  "\<forall>s\<in>set names. \<exists>df. read_excel E p s = Inr df \<Longrightarrow>
   \<exists>dfd. fst (load_sheets E p names acc h) = Inr dfd"
proof (induction names arbitrary: acc h)
  case Nil then show ?case by simp
next
  case (Cons s names)
  then obtain df where df: "read_excel E p s = Inr df" by auto
  obtain r h' where a: "alloc (DataFrameV (fst (dropna_columns (dropna_rows df)))
                                 (snd (dropna_columns (dropna_rows df)))) h = (r, h')"
    by (cases "alloc (DataFrameV (fst (dropna_columns (dropna_rows df)))
                                 (snd (dropna_columns (dropna_rows df)))) h") auto
  have "\<exists>dfd. fst (load_sheets E p names (dict_set (normalize_name s) r acc) h') = Inr dfd"
    using Cons by auto
  then show ?case using df a by (simp add: Let_def)
qed

lemma analyze_dataframes_all_empty:
  "\<forall>x\<in>set dfd. \<exists>cols rows. objs h (snd x) = DataFrameV cols rows \<and> df_empty (cols, rows) \<Longrightarrow>
   analyze_dataframes E h dfd = Inr []"
proof (induction dfd)
  case Nil then show ?case by simp
next
  case (Cons x dfd)
  obtain n r where x: "x = (n, r)" by (cases x)
  from Cons.prems x obtain cols rows where
    "objs h r = DataFrameV cols rows" "df_empty (cols, rows)" by auto
  moreover have "analyze_dataframes E h dfd = Inr []" using Cons by simp
  ultimately show ?case using x by simp
qed

lemma generate_explanation_logs:
  "generate_explanation E q c result w = (r, w') \<Longrightarrow>
   gen_log w' = gen_log w \<and> exec_log w' = exec_log w \<and> heap w' = heap w
   \<and> self_obj w' = self_obj w"
  by (auto simp: generate_explanation_def Let_def split: sum.splits)

lemma generate_analysis_code_keeps:
  "generate_analysis_code E q dfd fd da ctx attempt w = (r, w') \<Longrightarrow>
   heap w' = heap w \<and> self_obj w' = self_obj w \<and> exec_log w' = exec_log w"
  by (auto simp: generate_analysis_code_def Let_def split: sum.splits)





text \<open>
  Every attempt either leaves the log of runs, the store and the analyst object as they
  are, or makes one run from the current store and analyst object and keeps what the run
  leaves behind.
\<close>

lemma execute_code_effect:
  assumes "execute_code E c dfd w = (r, w')"
  shows "exec_log w' = exec_log w @ [\<lparr>call_code = c,
             call_globals = with_builtins (exec_globals_of (self_obj w) dfd),
             call_store = heap w, call_self = self_obj w\<rparr>]
         \<and> self_obj w' = analyst_after (run_of E \<lparr>call_code = c,
             call_globals = with_builtins (exec_globals_of (self_obj w) dfd),
             call_store = heap w, call_self = self_obj w\<rparr>)
         \<and> heap w' = store_after (run_of E \<lparr>call_code = c,
             call_globals = with_builtins (exec_globals_of (self_obj w) dfd),
             call_store = heap w, call_self = self_obj w\<rparr>)"
  using assms
  by (auto simp: execute_code_def run_of_def Let_def split: option.splits sum.splits)

lemma attempt_body_step:
  assumes "attempt_body E q dfd fd da le cv attempt w = (r, w')"
  shows "(exec_log w' = exec_log w \<and> self_obj w' = self_obj w \<and> heap w' = heap w)
         \<or> (\<exists>e. exec_log w' = exec_log w @ [e]
                \<and> call_globals e = with_builtins (exec_globals_of (self_obj w) dfd)
                \<and> call_store e = heap w \<and> call_self e = self_obj w
                \<and> self_obj w' = analyst_after (run_of E e)
                \<and> heap w' = store_after (run_of E e))"
proof -
  obtain g w1 where g: "generate_analysis_code E q dfd fd da
                          (if attempt > 0 then le else None) (attempt + 1) w = (g, w1)"
    by (cases "generate_analysis_code E q dfd fd da
                 (if attempt > 0 then le else None) (attempt + 1) w") auto
  note k1 = generate_analysis_code_keeps[OF g]
  show ?thesis
  proof (cases g)
    case (Inl e)
    with assms g k1 show ?thesis by (auto simp: attempt_body_def)
  next
    case (Inr c)
    obtain x w2 where x: "execute_code E c dfd w1 = (x, w2)"
      by (cases "execute_code E c dfd w1") auto
    let ?e = "\<lparr>call_code = c,
               call_globals = with_builtins (exec_globals_of (self_obj w1) dfd),
               call_store = heap w1, call_self = self_obj w1\<rparr>"
    note k2 = execute_code_effect[OF x]
    have step: "exec_log w2 = exec_log w @ [?e]
                \<and> call_globals ?e = with_builtins (exec_globals_of (self_obj w) dfd)
                \<and> call_store ?e = heap w \<and> call_self ?e = self_obj w
                \<and> self_obj w2 = analyst_after (run_of E ?e)
                \<and> heap w2 = store_after (run_of E ?e)"
      using k1 k2 by simp
    show ?thesis
    proof (cases x)
      case (Inl e)
      with assms g Inr x have "w' = w2" by (simp add: attempt_body_def)
      with step show ?thesis by blast
    next
      case r: (Inr res)
      obtain y w3 where y: "generate_explanation E q c res w2 = (y, w3)"
        by (cases "generate_explanation E q c res w2") auto
      note k3 = generate_explanation_logs[OF y]
      from assms g Inr x r y have "w' = w3" by (cases y) (simp_all add: attempt_body_def)
      with step k3 have "exec_log w' = exec_log w @ [?e]
                \<and> call_globals ?e = with_builtins (exec_globals_of (self_obj w) dfd)
                \<and> call_store ?e = heap w \<and> call_self ?e = self_obj w
                \<and> self_obj w' = analyst_after (run_of E ?e)
                \<and> heap w' = store_after (run_of E ?e)"
        by simp
      then show ?thesis by blast
    qed
  qed
qed

lemma attempts_loop_prefix:
  "attempts_loop E q dfd fd da attempts le cv w = (r, w') \<Longrightarrow>
   \<exists>ext. exec_log w' = exec_log w @ ext"
proof (induction attempts arbitrary: le cv w)
  case Nil then show ?case by simp
next
  case (Cons attempt rest)
  obtain o' w1 where b: "attempt_body E q dfd fd da le cv attempt w = (o', w1)"
    by (cases "attempt_body E q dfd fd da le cv attempt w") auto
  from attempt_body_step[OF b] obtain ext1 where e1: "exec_log w1 = exec_log w @ ext1"
    by auto
  show ?case
  proof (cases o')
    case (Returned v')
    with Cons.prems b have "w' = w1" by simp
    with e1 show ?thesis by blast
  next
    case (Raised e cv')
    show ?thesis
    proof (cases e)
      case (BaseException m)
      with Raised b Cons.prems have "w' = w1" by simp
      with e1 show ?thesis by blast
    next
      case (Exception m)
      show ?thesis
      proof (cases "int attempt = int (max_attempts (self_obj w1)) - 1")
        case True
        with Exception Raised b Cons.prems have "w' = w1" by (simp add: Let_def)
        with e1 show ?thesis by blast
      next
        case False
        have "attempts_loop E q dfd fd da rest
                (Some \<lparr>error = m, traceback = format_exc E (Exception m), code = cv'\<rparr>) cv' w1
              = (r, w')"
          using False Exception Raised b Cons.prems by (simp add: Let_def)
        from Cons.IH[OF this] obtain ext2 where "exec_log w' = exec_log w1 @ ext2" by blast
        with e1 show ?thesis by simp
      qed
    qed
  qed
qed



text \<open>
  The retry loop keeps the log linked.
\<close>

lemma linked_same:
  "linked E dfd w \<Longrightarrow> exec_log w' = exec_log w \<Longrightarrow> self_obj w' = self_obj w \<Longrightarrow>
   heap w' = heap w \<Longrightarrow> linked E dfd w'"
  by (simp add: linked_def)

lemma linked_step:
  assumes l: "linked E dfd w"
      and e: "exec_log w' = exec_log w @ [e]"
      and g: "call_globals e = with_builtins (exec_globals_of (self_obj w) dfd)"
      and st: "call_store e = heap w" and se: "call_self e = self_obj w"
      and s': "self_obj w' = analyst_after (run_of E e)"
      and h': "heap w' = store_after (run_of E e)"
  shows "linked E dfd w'"
proof -
  have a: "call_self (exec_log w' ! Suc i) = analyst_after (run_of E (exec_log w' ! i))
           \<and> call_store (exec_log w' ! Suc i) = store_after (run_of E (exec_log w' ! i))"
    if i: "Suc i < length (exec_log w')" for i
  proof (cases "Suc i < length (exec_log w)")
    case True
    then have "exec_log w' ! Suc i = exec_log w ! Suc i" "exec_log w' ! i = exec_log w ! i"
      using e by (simp_all add: nth_append)
    with l True show ?thesis by (simp add: linked_def)
  next
    case False
    with i e have eq: "Suc i = length (exec_log w)" by simp
    then have ne: "exec_log w \<noteq> []" by auto
    have "exec_log w' ! Suc i = e" using e eq by (simp add: nth_append)
    moreover have "exec_log w' ! i = last (exec_log w)"
    proof -
      have "i = length (exec_log w) - 1" using eq by simp
      moreover have "i < length (exec_log w)" using eq by simp
      ultimately show ?thesis using e ne by (simp add: nth_append last_conv_nth)
    qed
    ultimately show ?thesis using l ne st se by (simp add: linked_def)
  qed
  have b: "self_obj w' = analyst_after (run_of E (last (exec_log w')))
           \<and> heap w' = store_after (run_of E (last (exec_log w')))"
    using e s' h' by simp
  have c: "\<forall>x\<in>set (exec_log w'). call_globals x = with_builtins (exec_globals_of (call_self x) dfd)"
    using l e g se by (auto simp: linked_def)
  from a b c show ?thesis unfolding linked_def by blast
qed

lemma attempt_body_linked:
  assumes "linked E dfd w" "attempt_body E q dfd fd da le cv attempt w = (r, w')"
  shows "linked E dfd w'"
  using attempt_body_step[OF assms(2)]
proof
  assume "exec_log w' = exec_log w \<and> self_obj w' = self_obj w \<and> heap w' = heap w"
  then show ?thesis using linked_same[OF assms(1)] by blast
next
  assume "\<exists>e. exec_log w' = exec_log w @ [e]
                \<and> call_globals e = with_builtins (exec_globals_of (self_obj w) dfd)
                \<and> call_store e = heap w \<and> call_self e = self_obj w
                \<and> self_obj w' = analyst_after (run_of E e)
                \<and> heap w' = store_after (run_of E e)"
  then show ?thesis using linked_step[OF assms(1)] by blast
qed

lemma attempts_loop_linked:
  "linked E dfd w \<Longrightarrow> attempts_loop E q dfd fd da attempts le cv w = (r, w') \<Longrightarrow>
   linked E dfd w'"
proof (induction attempts arbitrary: le cv w)
  case Nil then show ?case by simp
next
  case (Cons attempt rest)
  obtain o' w1 where b: "attempt_body E q dfd fd da le cv attempt w = (o', w1)"
    by (cases "attempt_body E q dfd fd da le cv attempt w") auto
  have l1: "linked E dfd w1" using attempt_body_linked[OF Cons.prems(1) b] .
  show ?case
  proof (cases o')
    case (Returned v')
    with Cons.prems(2) b have "w' = w1" by simp
    with l1 show ?thesis by simp
  next
    case (Raised e cv')
    show ?thesis
    proof (cases e)
      case (BaseException m)
      with Raised b Cons.prems(2) have "w' = w1" by simp
      with l1 show ?thesis by simp
    next
      case (Exception m)
      show ?thesis
      proof (cases "int attempt = int (max_attempts (self_obj w1)) - 1")
        case True
        with Exception Raised b Cons.prems(2) have "w' = w1" by (simp add: Let_def)
        with l1 show ?thesis by simp
      next
        case False
        have "attempts_loop E q dfd fd da rest
                (Some \<lparr>error = m, traceback = format_exc E (Exception m), code = cv'\<rparr>) cv' w1
              = (r, w')"
          using False Exception Raised b Cons.prems(2) by (simp add: Let_def)
        from Cons.IH[OF l1 this] show ?thesis .
      qed
    qed
  qed
qed

lemma attempts_loop_first_call:
  "exec_log w = [] \<Longrightarrow> attempts_loop E q dfd fd da attempts le cv w = (r, w') \<Longrightarrow>
   exec_log w' \<noteq> [] \<Longrightarrow>
   call_self (exec_log w' ! 0) = self_obj w \<and> call_store (exec_log w' ! 0) = heap w"
proof (induction attempts arbitrary: le cv w)
  case Nil then show ?case by simp
next
  case (Cons attempt rest)
  obtain o' w1 where b: "attempt_body E q dfd fd da le cv attempt w = (o', w1)"
    by (cases "attempt_body E q dfd fd da le cv attempt w") auto
  have fin: "w' = w1 \<or> (\<exists>le' cv'. attempts_loop E q dfd fd da rest le' cv' w1 = (r, w'))"
  proof (cases o')
    case (Returned v')
    with Cons.prems(2) b show ?thesis by simp
  next
    case (Raised e cv')
    show ?thesis
    proof (cases e)
      case (BaseException m)
      with Raised b Cons.prems(2) show ?thesis by simp
    next
      case (Exception m)
      with Raised b Cons.prems(2) show ?thesis
        by (cases "int attempt = int (max_attempts (self_obj w1)) - 1")
           (auto simp: Let_def)
    qed
  qed
  from attempt_body_step[OF b] show ?case
  proof
    assume same: "exec_log w1 = exec_log w \<and> self_obj w1 = self_obj w \<and> heap w1 = heap w"
    from fin show ?thesis
    proof
      assume "w' = w1"
      with same Cons.prems(1,3) show ?thesis by simp
    next
      assume "\<exists>le' cv'. attempts_loop E q dfd fd da rest le' cv' w1 = (r, w')"
      then obtain le' cv' where "attempts_loop E q dfd fd da rest le' cv' w1 = (r, w')"
        by blast
      from Cons.IH[OF _ this Cons.prems(3)] same Cons.prems(1) show ?thesis by simp
    qed
  next
    assume "\<exists>e. exec_log w1 = exec_log w @ [e]
                \<and> call_globals e = with_builtins (exec_globals_of (self_obj w) dfd)
                \<and> call_store e = heap w \<and> call_self e = self_obj w
                \<and> self_obj w1 = analyst_after (run_of E e)
                \<and> heap w1 = store_after (run_of E e)"
    then obtain e where e: "exec_log w1 = exec_log w @ [e]" "call_store e = heap w"
      "call_self e = self_obj w" by blast
    have "\<exists>ext. exec_log w' = exec_log w1 @ ext"
      using fin attempts_loop_prefix by fastforce
    then obtain ext where "exec_log w' = exec_log w1 @ ext" by blast
    with e Cons.prems(1) have "exec_log w' ! 0 = e" by simp
    with e show ?thesis by simp
  qed
qed

lemma with_builtins_tables:
  "map_of dfd n = Some r \<Longrightarrow> with_builtins (exec_globals_of a dfd) n = Some r"
  by (auto simp: with_builtins_def exec_globals_of_def map_add_def split: option.splits)

lemma execute_code_last_call:
  "call_globals (last (exec_log (snd (execute_code E c dfd w))))
     = with_builtins (exec_globals_of (self_obj w) dfd)"
  using execute_code_effect[of E c dfd w "fst (execute_code E c dfd w)" "snd (execute_code E c dfd w)"]
  by simp

lemma pair_of_fst: "fst x = a \<Longrightarrow> x = (a, snd x)"
  by (cases x) simp



section \<open>The claims\<close>

subsection \<open>The namespace of a run\<close>

text \<open>
  C1 fails in the code, which calls the namespace \<^verbatim>\<open>safe_globals\<close> and the execution
  a controlled, safe environment: for every code text and every table set, the namespace
  that the run starts from binds \<^verbatim>\<open>__builtins__\<close>, which \<^verbatim>\<open>exec\<close> inserts into a
  globals dict that lacks it, so the names of the module \<^verbatim>\<open>builtins\<close> are reachable
  although the whitelist leaves them out. On the workbook of the examples and the reply
  \<^verbatim>\<open>import os\<close>, \<^verbatim>\<open>result = os.name\<close> of the code generator, the import succeeds
  and \<^verbatim>\<open>analyze\<close> returns a successful result that carries a value read from the host.
\<close>

theorem exec_builtins_reachable:
  "call_globals (last (exec_log (snd (execute_code E c dfd w)))) ''__builtins__'' \<noteq> None
   \<and> (case analyze (generating (\<lambda>n. Inr reads_host)) request ''book.xlsx'' (DictV [])
             initial_world of
        (r, w') \<Rightarrow>
          r = Inr (success_result request reads_host
                     \<lparr>value = StrV ''posix'', output = [], errors = None\<rparr> ''Done.'' 1)
          \<and> map call_code (exec_log w') = [reads_host]
          \<and> call_globals (exec_log w' ! 0) ''__builtins__'' = Some builtins_ref
          \<and> objs (call_store (exec_log w' ! 0)) builtins_ref = ObjectV ''builtins''
          \<and> name_resolves (call_globals (exec_log w' ! 0)) ''__import__'')
   \<and> ''__import__'' \<notin> set whitelist \<and> ''os'' \<notin> set whitelist
   \<and> ''__builtins__'' \<notin> set whitelist"
proof (intro conjI)
  show "call_globals (last (exec_log (snd (execute_code E c dfd w)))) ''__builtins__'' \<noteq> None"
    by (simp add: execute_code_last_call with_builtins_def split: option.splits)
  show "case analyze (generating (\<lambda>n. Inr reads_host)) request ''book.xlsx'' (DictV [])
             initial_world of
        (r, w') \<Rightarrow>
          r = Inr (success_result request reads_host
                     \<lparr>value = StrV ''posix'', output = [], errors = None\<rparr> ''Done.'' 1)
          \<and> map call_code (exec_log w') = [reads_host]
          \<and> call_globals (exec_log w' ! 0) ''__builtins__'' = Some builtins_ref
          \<and> objs (call_store (exec_log w' ! 0)) builtins_ref = ObjectV ''builtins''
          \<and> name_resolves (call_globals (exec_log w' ! 0)) ''__import__''"
    by (simp add: eval_simps)
qed (simp_all add: whitelist_def)

subsection \<open>Faults of the Table Loader\<close>

text \<open>
  C2, as the code has it. When the loader raises an \<^verbatim>\<open>Exception\<close> (the workbook
  cannot be read), \<^verbatim>\<open>analyze\<close> does not raise: it returns the failure dict with
  \<^verbatim>\<open>success\<close> false, the message of the exception as \<^verbatim>\<open>error\<close> and the attempt
  budget as \<^verbatim>\<open>attempts\<close>, and it makes no call to the code generator and runs no
  code. A workbook whose sheets can all be read is loaded, whatever the sheets hold; and
  when every loaded table is empty, \<^verbatim>\<open>analyze\<close> goes on to the retry loop with an
  empty table summary: there is no fault for a table set without usable tables.
\<close>

theorem analyze_load_fault:
  "(fst (load_excel_sheets E p (heap w)) = Inl (Exception m) \<longrightarrow>
      fst (analyze E q p fd w) = Inr (failure_result (self_obj w) q m)
      \<and> gen_log (snd (analyze E q p fd w)) = gen_log w
      \<and> exec_log (snd (analyze E q p fd w)) = exec_log w
      \<and> field (failure_result (self_obj w) q m) ''success'' = Some (BoolV False)
      \<and> field (failure_result (self_obj w) q m) ''error'' = Some (StrV m)
      \<and> field (failure_result (self_obj w) q m) ''attempts''
          = Some (IntV (int (max_attempts (self_obj w)))))
   \<and> (ExcelFile E p = Inr names \<and> (\<forall>s\<in>set names. \<exists>df. read_excel E p s = Inr df) \<longrightarrow>
      (\<exists>dfd. fst (load_excel_sheets E p (heap w)) = Inr dfd))
   \<and> (load_excel_sheets E p (heap w) = (Inr dfd, h)
       \<and> (\<forall>x\<in>set dfd. \<exists>cols rows. objs h (snd x) = DataFrameV cols rows
                                       \<and> df_empty (cols, rows)) \<longrightarrow>
      analyze E q p fd w
        = outer_handler q (attempts_loop E q dfd fd [] [0..<max_attempts (self_obj w)]
                             None None (w\<lparr>heap := h\<rparr>)))"
proof (intro conjI impI)
  assume a: "fst (load_excel_sheets E p (heap w)) = Inl (Exception m)"
  obtain h where h: "load_excel_sheets E p (heap w) = (Inl (Exception m), h)"
    using a by (cases "load_excel_sheets E p (heap w)") auto
  show "fst (analyze E q p fd w) = Inr (failure_result (self_obj w) q m)"
    by (simp add: analyze_def h outer_handler_def)
  show "gen_log (snd (analyze E q p fd w)) = gen_log w"
    by (simp add: analyze_def h outer_handler_def)
  show "exec_log (snd (analyze E q p fd w)) = exec_log w"
    by (simp add: analyze_def h outer_handler_def)
  show "field (failure_result (self_obj w) q m) ''success'' = Some (BoolV False)"
    by (simp add: failure_result_def)
  show "field (failure_result (self_obj w) q m) ''error'' = Some (StrV m)"
    by (simp add: failure_result_def)
  show "field (failure_result (self_obj w) q m) ''attempts''
          = Some (IntV (int (max_attempts (self_obj w))))"
    by (simp add: failure_result_def)
next
  assume "ExcelFile E p = Inr names \<and> (\<forall>s\<in>set names. \<exists>df. read_excel E p s = Inr df)"
  then show "\<exists>dfd. fst (load_excel_sheets E p (heap w)) = Inr dfd"
    using load_sheets_reads_ok[of names E p "[]" "heap w"]
    by (simp add: load_excel_sheets_def)
next
  assume a: "load_excel_sheets E p (heap w) = (Inr dfd, h)
       \<and> (\<forall>x\<in>set dfd. \<exists>cols rows. objs h (snd x) = DataFrameV cols rows
                                       \<and> df_empty (cols, rows))"
  then have "analyze_dataframes E h dfd = Inr []"
    using analyze_dataframes_all_empty by blast
  with a show "analyze E q p fd w
        = outer_handler q (attempts_loop E q dfd fd [] [0..<max_attempts (self_obj w)]
                             None None (w\<lparr>heap := h\<rparr>))"
    by (simp add: analyze_def)
qed

text \<open>
  A missing workbook gives the failure dict and no generation call; a workbook whose one
  sheet has only empty cells is loaded and handed to the retry loop.
\<close>

theorem analyze_load_fault_witness:
  "fst (load_excel_sheets
          (scenario missing_workbook two_rows (\<lambda>n. Inr ''result = len(data)'') (\<lambda>n. Inr ''Done.''))
          ''book.xlsx'' (heap initial_world))
     = Inl (Exception (''[Errno 2] No such file or directory: 'book.xlsx'' @ [CHR 0x27]))
   \<and> fst (analyze
          (scenario missing_workbook two_rows (\<lambda>n. Inr ''result = len(data)'') (\<lambda>n. Inr ''Done.''))
          request ''book.xlsx'' (DictV []) initial_world)
     = Inr (failure_result init request
              (''[Errno 2] No such file or directory: 'book.xlsx'' @ [CHR 0x27]))
   \<and> gen_log (snd (analyze
          (scenario missing_workbook two_rows (\<lambda>n. Inr ''result = len(data)'') (\<lambda>n. Inr ''Done.''))
          request ''book.xlsx'' (DictV []) initial_world)) = []
   \<and> (\<exists>dfd. fst (load_excel_sheets
          (scenario workbook blank_sheet (\<lambda>n. Inr ''result = len(data)'') (\<lambda>n. Inr ''Done.''))
          ''book.xlsx'' (heap initial_world)) = Inr dfd)
   \<and> analyze
          (scenario workbook blank_sheet (\<lambda>n. Inr ''result = len(data)'') (\<lambda>n. Inr ''Done.''))
          request ''book.xlsx'' (DictV []) initial_world
       = outer_handler request
           (attempts_loop
              (scenario workbook blank_sheet (\<lambda>n. Inr ''result = len(data)'') (\<lambda>n. Inr ''Done.''))
              request [(''data'', 16)] (DictV []) [] [0..<3] None None
              (initial_world\<lparr>heap := snd (load_excel_sheets
                 (scenario workbook blank_sheet (\<lambda>n. Inr ''result = len(data)'')
                    (\<lambda>n. Inr ''Done.''))
                 ''book.xlsx'' (heap initial_world))\<rparr>))"
proof -
  let ?M = "scenario missing_workbook two_rows (\<lambda>n. Inr ''result = len(data)'') (\<lambda>n. Inr ''Done.'')"
  let ?B = "scenario workbook blank_sheet (\<lambda>n. Inr ''result = len(data)'') (\<lambda>n. Inr ''Done.'')"
  let ?msg = "''[Errno 2] No such file or directory: 'book.xlsx'' @ [CHR 0x27]"
  let ?h = "snd (load_excel_sheets ?B ''book.xlsx'' (heap initial_world))"
  have h1: "fst (load_excel_sheets ?M ''book.xlsx'' (heap initial_world)) = Inl (Exception ?msg)"
    by (simp add: load_excel_sheets_def scenario_def missing_workbook_def)
  note t1 = analyze_load_fault [where E = ?M and p = "''book.xlsx''" and w = initial_world
      and m = ?msg and q = request and fd = "DictV []", THEN conjunct1, rule_format, OF h1]
  have h2: "ExcelFile ?B ''book.xlsx'' = Inr [''Data'']
            \<and> (\<forall>s\<in>set [''Data'']. \<exists>df. read_excel ?B ''book.xlsx'' s = Inr df)"
    by (simp add: scenario_def workbook_def)
  note t2 = analyze_load_fault [where E = ?B and p = "''book.xlsx''" and w = initial_world
      and names = "[''Data'']", THEN conjunct2, THEN conjunct1, rule_format, OF h2]
  have "fst (load_excel_sheets ?B ''book.xlsx'' (heap initial_world)) = Inr [(''data'', 16)]"
    by (simp add: eval_simps)
  then have l: "load_excel_sheets ?B ''book.xlsx'' (heap initial_world)
                  = (Inr [(''data'', 16)], ?h)"
    by (rule pair_of_fst)
  have e: "\<forall>x\<in>set [(''data'', 16::nat)]. \<exists>cols rows.
              objs ?h (snd x) = DataFrameV cols rows \<and> df_empty (cols, rows)"
    by (simp add: eval_simps)
  note t3 = analyze_load_fault [where E = ?B and p = "''book.xlsx''" and w = initial_world
      and q = request and fd = "DictV []" and dfd = "[(''data'', 16)]" and h = ?h,
      THEN conjunct2, THEN conjunct2, rule_format, OF conjI [OF l e]]
  from h1 t1 t2 t3 show ?thesis
    by (simp add: initial_world_def max_attempts_init)
qed

text \<open>
  Against the claim as stated: for a missing workbook \<^verbatim>\<open>analyze\<close> returns a result
  that encodes the fault; for a workbook whose cells are all empty it calls the code
  generator, runs the code on the empty table and returns a successful result.
\<close>

theorem analyze_load_counterexample:
  "(case analyze (scenario missing_workbook two_rows (\<lambda>n. Inr ''result = len(data)'')
                    (\<lambda>n. Inr ''Done.''))
           request ''book.xlsx'' (DictV []) initial_world of
      (r, w') \<Rightarrow>
        r = Inr (failure_result init request
                   (''[Errno 2] No such file or directory: 'book.xlsx'' @ [CHR 0x27]))
        \<and> gen_log w' = [])
   \<and> (case analyze (scenario workbook blank_sheet (\<lambda>n. Inr ''result = len(data)'')
                       (\<lambda>n. Inr ''Done.''))
           request ''book.xlsx'' (DictV []) initial_world of
      (r, w') \<Rightarrow>
        r = Inr (success_result request ''result = len(data)''
                   \<lparr>value = IntV 0, output = [], errors = None\<rparr> ''Done.'' 1)
        \<and> length (gen_log w') = 1
        \<and> objs (heap w') 16 = DataFrameV [] [])"
  by (simp add: eval_simps)

subsection \<open>The explanation step\<close>




subsection \<open>What the attempts of a request share\<close>

text \<open>
  C4, as the code has it. Every run of a request starts from a namespace that
  \<^verbatim>\<open>_execute_code\<close> builds anew from the \<^verbatim>\<open>safe_globals\<close> of the analyst object and
  the loaded tables, so a name rebound by the code of one attempt is not rebound in the
  next. The copy is shallow: every table name is bound to the reference of the loaded
  frame in every attempt, and each run starts from the store and from the analyst object
  that the run before it left behind (the first run from the store after loading), so
  what one attempt's code does to a table, or to any other object, stays done for the
  later attempts.
\<close>

theorem exec_namespace_per_attempt:
  "exec_log w = [] \<longrightarrow>
     (\<forall>i. Suc i < length (exec_log (snd (analyze E q p fd w))) \<longrightarrow>
        call_self (exec_log (snd (analyze E q p fd w)) ! Suc i)
          = analyst_after (run_of E (exec_log (snd (analyze E q p fd w)) ! i))
        \<and> call_store (exec_log (snd (analyze E q p fd w)) ! Suc i)
          = store_after (run_of E (exec_log (snd (analyze E q p fd w)) ! i)))
     \<and> (\<forall>e\<in>set (exec_log (snd (analyze E q p fd w))).
          \<exists>dfd. fst (load_excel_sheets E p (heap w)) = Inr dfd
            \<and> call_globals e = with_builtins (exec_globals_of (call_self e) dfd)
            \<and> (\<forall>n r. map_of dfd n = Some r \<longrightarrow> call_globals e n = Some r))
     \<and> (exec_log (snd (analyze E q p fd w)) \<noteq> [] \<longrightarrow>
          call_self (exec_log (snd (analyze E q p fd w)) ! 0) = self_obj w
          \<and> call_store (exec_log (snd (analyze E q p fd w)) ! 0)
              = snd (load_excel_sheets E p (heap w)))"
proof
  assume emp: "exec_log w = []"
  let ?log = "exec_log (snd (analyze E q p fd w))"
  obtain ld h where ld: "load_excel_sheets E p (heap w) = (ld, h)"
    by (cases "load_excel_sheets E p (heap w)") auto
  have trivial: ?thesis if "?log = []"
    using that by simp
  have main: "(\<forall>i. Suc i < length ?log \<longrightarrow>
        call_self (?log ! Suc i) = analyst_after (run_of E (?log ! i))
        \<and> call_store (?log ! Suc i) = store_after (run_of E (?log ! i)))
     \<and> (\<forall>e\<in>set ?log.
          \<exists>dfd. fst (load_excel_sheets E p (heap w)) = Inr dfd
            \<and> call_globals e = with_builtins (exec_globals_of (call_self e) dfd)
            \<and> (\<forall>n r. map_of dfd n = Some r \<longrightarrow> call_globals e n = Some r))
     \<and> (?log \<noteq> [] \<longrightarrow>
          call_self (?log ! 0) = self_obj w
          \<and> call_store (?log ! 0) = snd (load_excel_sheets E p (heap w)))"
  proof (cases ld)
    case (Inl x)
    then have "?log = []"
      using ld emp by (cases x) (simp_all add: analyze_def outer_handler_def)
    then show ?thesis by simp
  next
    case (Inr dfd)
    show ?thesis
    proof (cases "analyze_dataframes E h dfd")
      case (Inl x)
      then have "?log = []"
        using ld Inr emp by (cases x) (simp_all add: analyze_def outer_handler_def)
      then show ?thesis by simp
    next
      case da: (Inr da)
      obtain r w' where lp:
        "attempts_loop E q dfd fd da [0..<max_attempts (self_obj w)] None None (w\<lparr>heap := h\<rparr>)
           = (r, w')"
        by (cases "attempts_loop E q dfd fd da [0..<max_attempts (self_obj w)] None None
                     (w\<lparr>heap := h\<rparr>)") auto
      have fin: "snd (analyze E q p fd w) = w'"
        using ld Inr da lp
        by (auto simp: analyze_def outer_handler_def split: sum.splits pyexc.splits)
      have "linked E dfd (w\<lparr>heap := h\<rparr>)" using emp by (simp add: linked_def)
      from attempts_loop_linked[OF this lp] have l: "linked E dfd w'" .
      have first: "exec_log w' \<noteq> [] \<longrightarrow>
                     call_self (exec_log w' ! 0) = self_obj w \<and> call_store (exec_log w' ! 0) = h"
        using attempts_loop_first_call[OF _ lp] emp by simp
      have tabs: "\<forall>e\<in>set (exec_log w').
          \<exists>dfd. fst (load_excel_sheets E p (heap w)) = Inr dfd
            \<and> call_globals e = with_builtins (exec_globals_of (call_self e) dfd)
            \<and> (\<forall>n r. map_of dfd n = Some r \<longrightarrow> call_globals e n = Some r)"
      proof
        fix e assume "e \<in> set (exec_log w')"
        with l have g: "call_globals e = with_builtins (exec_globals_of (call_self e) dfd)"
          by (simp add: linked_def)
        then have "\<forall>n r. map_of dfd n = Some r \<longrightarrow> call_globals e n = Some r"
          by (simp add: with_builtins_tables)
        with g ld Inr show "\<exists>dfd. fst (load_excel_sheets E p (heap w)) = Inr dfd
            \<and> call_globals e = with_builtins (exec_globals_of (call_self e) dfd)
            \<and> (\<forall>n r. map_of dfd n = Some r \<longrightarrow> call_globals e n = Some r)"
          by auto
      qed
      from l have chain: "\<forall>i. Suc i < length (exec_log w') \<longrightarrow>
        call_self (exec_log w' ! Suc i) = analyst_after (run_of E (exec_log w' ! i))
        \<and> call_store (exec_log w' ! Suc i) = store_after (run_of E (exec_log w' ! i))"
        by (simp add: linked_def)
      from chain tabs first show ?thesis unfolding fin using ld by simp
    qed
  qed
  then show "(\<forall>i. Suc i < length ?log \<longrightarrow>
        call_self (?log ! Suc i) = analyst_after (run_of E (?log ! i))
        \<and> call_store (?log ! Suc i) = store_after (run_of E (?log ! i)))
     \<and> (\<forall>e\<in>set ?log.
          \<exists>dfd. fst (load_excel_sheets E p (heap w)) = Inr dfd
            \<and> call_globals e = with_builtins (exec_globals_of (call_self e) dfd)
            \<and> (\<forall>n r. map_of dfd n = Some r \<longrightarrow> call_globals e n = Some r))
     \<and> (?log \<noteq> [] \<longrightarrow>
          call_self (?log ! 0) = self_obj w
          \<and> call_store (?log ! 0) = snd (load_excel_sheets E p (heap w)))" .
qed

text \<open>
  The second run of the request below starts from the store and the analyst object that the
  first run left, in a namespace built from that analyst object and the loaded tables.
\<close>

theorem exec_namespace_per_attempt_witness:
  "exec_log initial_world = []
   \<and> Suc 0 < length (exec_log (snd (analyze
        (generating (\<lambda>n. if n = 0 then Inr wipes_table else Inr ''result = len(data)''))
        request ''book.xlsx'' (DictV []) initial_world)))
   \<and> call_self (exec_log (snd (analyze
        (generating (\<lambda>n. if n = 0 then Inr wipes_table else Inr ''result = len(data)''))
        request ''book.xlsx'' (DictV []) initial_world)) ! Suc 0)
       = analyst_after (run_of
           (generating (\<lambda>n. if n = 0 then Inr wipes_table else Inr ''result = len(data)''))
           (exec_log (snd (analyze
              (generating (\<lambda>n. if n = 0 then Inr wipes_table else Inr ''result = len(data)''))
              request ''book.xlsx'' (DictV []) initial_world)) ! 0))
   \<and> call_store (exec_log (snd (analyze
        (generating (\<lambda>n. if n = 0 then Inr wipes_table else Inr ''result = len(data)''))
        request ''book.xlsx'' (DictV []) initial_world)) ! Suc 0)
       = store_after (run_of
           (generating (\<lambda>n. if n = 0 then Inr wipes_table else Inr ''result = len(data)''))
           (exec_log (snd (analyze
              (generating (\<lambda>n. if n = 0 then Inr wipes_table else Inr ''result = len(data)''))
              request ''book.xlsx'' (DictV []) initial_world)) ! 0))
   \<and> (\<exists>dfd. fst (load_excel_sheets
          (generating (\<lambda>n. if n = 0 then Inr wipes_table else Inr ''result = len(data)''))
          ''book.xlsx'' (heap initial_world)) = Inr dfd
        \<and> call_globals (exec_log (snd (analyze
              (generating (\<lambda>n. if n = 0 then Inr wipes_table else Inr ''result = len(data)''))
              request ''book.xlsx'' (DictV []) initial_world)) ! Suc 0)
            = with_builtins (exec_globals_of (call_self (exec_log (snd (analyze
                (generating (\<lambda>n. if n = 0 then Inr wipes_table
                                 else Inr ''result = len(data)''))
                request ''book.xlsx'' (DictV []) initial_world)) ! Suc 0)) dfd))
   \<and> call_self (exec_log (snd (analyze
        (generating (\<lambda>n. if n = 0 then Inr wipes_table else Inr ''result = len(data)''))
        request ''book.xlsx'' (DictV []) initial_world)) ! 0) = self_obj initial_world"
proof -
  let ?E = "generating (\<lambda>n. if n = 0 then Inr wipes_table else Inr ''result = len(data)'')"
  let ?L = "exec_log (snd (analyze ?E request ''book.xlsx'' (DictV []) initial_world))"
  have emp: "exec_log initial_world = []"
    by (simp add: initial_world_def)
  have len: "Suc 0 < length ?L"
    by (simp add: eval_simps)
  then have mem: "?L ! Suc 0 \<in> set ?L" and ne: "?L \<noteq> []"
    by (simp_all only: nth_mem) auto
  note t = exec_namespace_per_attempt [where w = initial_world and E = ?E and q = request
      and p = "''book.xlsx''" and fd = "DictV []", THEN mp, OF emp]
  note t1 = t [THEN conjunct1, rule_format, OF len]
  note t2 = t [THEN conjunct2, THEN conjunct1, rule_format, OF mem]
  note t3 = t [THEN conjunct2, THEN conjunct2, rule_format, OF ne, THEN conjunct1]
  from emp len t1 t2 t3 show ?thesis by blast
qed

text \<open>
  Against the claim as stated: the code of the first attempt removes the rows of the
  table \<^verbatim>\<open>data\<close> in place and then faults; the second attempt is bound to the same
  frame, now without rows, and \<^verbatim>\<open>analyze\<close> reports a row count of 0 for a sheet that
  has two rows.
\<close>

theorem exec_shared_table_counterexample:
  "case analyze (generating (\<lambda>n. if n = 0 then Inr wipes_table else Inr ''result = len(data)''))
          request ''book.xlsx'' (DictV []) initial_world of
     (r, w') \<Rightarrow>
       r = Inr (success_result request ''result = len(data)''
                  \<lparr>value = IntV 0, output = [], errors = None\<rparr> ''Done.'' 2)
       \<and> map call_code (exec_log w') = [wipes_table, ''result = len(data)'']
       \<and> call_globals (exec_log w' ! 0) ''data'' = Some 16
       \<and> call_globals (exec_log w' ! 1) ''data'' = Some 16
       \<and> objs (call_store (exec_log w' ! 0)) 16
           = DataFrameV [StrV ''Item'', StrV ''X'']
               [[StrV ''a'', IntV 10], [StrV ''b'', IntV 15]]
       \<and> objs (call_store (exec_log w' ! 1)) 16 = DataFrameV [StrV ''Item'', StrV ''X''] []"
  by (simp add: eval_simps numeral_2_eq_2)

subsection \<open>Faults of the executed code\<close>




subsection \<open>The row cap of the Result Normalizer\<close>

text \<open>
  C6, as the code has it: a tabular result with at least one column and more than 100
  rows is normalized to a list of exactly 100 dicts, without an error, and one with at
  most 100 rows to one dict per row; the dict at position \<open>i\<close> maps the column labels to
  the cells of row \<open>i\<close> of the frame, so the rows kept are the first ones. A tabular
  result without columns is normalized to the empty list, whatever its number of rows.
\<close>

theorem serialize_result_row_cap:
  "(cols \<noteq> [] \<longrightarrow>
      (\<exists>ds. serialize_result E (DataFrameV cols rows) = Inr (ListV ds)
         \<and> length ds = (if length rows > 100 then 100 else length rows)
         \<and> (\<forall>i < length ds. \<exists>d. ds ! i = DictV d \<and> distinct (map fst d)
                \<and> map_of d = map_of (rev (zip cols (rows ! i))))))
   \<and> (cols = [] \<longrightarrow> serialize_result E (DataFrameV cols rows) = Inr (ListV []))"
proof (intro conjI impI)
  assume ne: "cols \<noteq> []"
  let ?rows = "if length rows > 100 then take 100 rows else rows"
  let ?ds = "map (\<lambda>row. DictV (dict_of (zip cols row))) ?rows"
  have s: "serialize_result E (DataFrameV cols rows) = Inr (ListV ?ds)"
    using ne by (simp add: to_dict_records_def head_def)
  have l: "length ?ds = (if length rows > 100 then 100 else length rows)" by simp
  have "\<exists>d. ?ds ! i = DictV d \<and> distinct (map fst d)
           \<and> map_of d = map_of (rev (zip cols (rows ! i)))" if "i < length ?ds" for i
  proof -
    have "?ds ! i = DictV (dict_of (zip cols (?rows ! i)))" using that by simp
    moreover have "?rows ! i = rows ! i" using that by (simp split: if_splits)
    ultimately show ?thesis using dict_of_props[of "zip cols (rows ! i)"] by simp
  qed
  with s l show "\<exists>ds. serialize_result E (DataFrameV cols rows) = Inr (ListV ds)
         \<and> length ds = (if length rows > 100 then 100 else length rows)
         \<and> (\<forall>i < length ds. \<exists>d. ds ! i = DictV d \<and> distinct (map fst d)
                \<and> map_of d = map_of (rev (zip cols (rows ! i))))"
    by blast
next
  assume "cols = []"
  then show "serialize_result E (DataFrameV cols rows) = Inr (ListV [])"
    by (simp add: to_dict_records_def)
qed

text \<open>
  A frame of 500 rows and one column yields 100 dicts, a frame of two rows yields its two
  rows, and a frame of three rows without columns yields no row.
\<close>

theorem serialize_result_row_cap_witness:
  "(\<exists>ds. serialize_result (generating (\<lambda>n. Inr ''result = len(data)''))
            (DataFrameV [StrV ''x''] (replicate 500 [IntV 7])) = Inr (ListV ds)
        \<and> length ds = 100
        \<and> (\<exists>d. ds ! 0 = DictV d \<and> map_of d (StrV ''x'') = Some (IntV 7)))
   \<and> (\<exists>ds. serialize_result (generating (\<lambda>n. Inr ''result = len(data)''))
            (DataFrameV [StrV ''x''] [[IntV 1], [IntV 2]]) = Inr (ListV ds)
        \<and> length ds = 2
        \<and> (\<exists>d. ds ! 1 = DictV d \<and> map_of d (StrV ''x'') = Some (IntV 2)))
   \<and> serialize_result (generating (\<lambda>n. Inr ''result = len(data)'')) (DataFrameV [] [[], [], []])
       = Inr (ListV [])"
proof -
  let ?E = "generating (\<lambda>n. Inr ''result = len(data)'')"
  have c: "[StrV ''x''] \<noteq> []" by simp
  from serialize_result_row_cap [of "[StrV ''x'']" ?E "replicate 500 [IntV 7]",
         THEN conjunct1, rule_format, OF c]
  obtain ds where ds: "serialize_result ?E (DataFrameV [StrV ''x''] (replicate 500 [IntV 7]))
                         = Inr (ListV ds)" "length ds = 100"
      "\<forall>i<length ds. \<exists>d. ds ! i = DictV d \<and> distinct (map fst d)
           \<and> map_of d = map_of (rev (zip [StrV ''x''] (replicate 500 [IntV 7] ! i)))"
    by auto
  from ds(2,3) have "\<exists>d. ds ! 0 = DictV d \<and> map_of d (StrV ''x'') = Some (IntV 7)"
    by (auto dest!: spec[of _ 0])
  with ds have one: "\<exists>ds. serialize_result ?E (DataFrameV [StrV ''x''] (replicate 500 [IntV 7]))
                         = Inr (ListV ds) \<and> length ds = 100
        \<and> (\<exists>d. ds ! 0 = DictV d \<and> map_of d (StrV ''x'') = Some (IntV 7))" by blast
  from serialize_result_row_cap [of "[StrV ''x'']" ?E "[[IntV 1], [IntV 2]]",
         THEN conjunct1, rule_format, OF c]
  obtain es where es: "serialize_result ?E (DataFrameV [StrV ''x''] [[IntV 1], [IntV 2]])
                         = Inr (ListV es)" "length es = 2"
      "\<forall>i<length es. \<exists>d. es ! i = DictV d \<and> distinct (map fst d)
           \<and> map_of d = map_of (rev (zip [StrV ''x''] ([[IntV 1], [IntV 2]] ! i)))"
    by auto
  from es(2,3) have "\<exists>d. es ! 1 = DictV d \<and> map_of d (StrV ''x'') = Some (IntV 2)"
    by (auto dest!: spec[of _ 1])
  with es have two: "\<exists>ds. serialize_result ?E (DataFrameV [StrV ''x''] [[IntV 1], [IntV 2]])
                         = Inr (ListV ds) \<and> length ds = 2
        \<and> (\<exists>d. ds ! 1 = DictV d \<and> map_of d (StrV ''x'') = Some (IntV 2))" by blast
  from serialize_result_row_cap [of "[]" ?E "[[], [], []]", THEN conjunct2]
  have "serialize_result ?E (DataFrameV [] [[], [], []]) = Inr (ListV [])" by simp
  with one two show ?thesis by blast
qed

text \<open>
  Against the claim as stated: a frame of 500 rows without columns,
  \<^verbatim>\<open>pd.DataFrame(index=range(500))\<close>, is normalized to the empty list, not to
  100 rows.
\<close>

theorem serialize_result_no_columns_counterexample:
  "length (replicate 500 ([] :: pyval list)) = 500
   \<and> serialize_result (generating (\<lambda>n. Inr ''result = len(data)''))
        (DataFrameV [] (replicate 500 [])) = Inr (ListV [])"
  by (simp add: to_dict_records_def)

subsection \<open>The prompt of a retry\<close>

text \<open>
  C8 fails in the code. The handler of the retry loop records
  \<^verbatim>\<open>code if 'code' in locals() else None\<close>, meant to be the code of the failed
  attempt or \<^verbatim>\<open>None\<close> when there is none; but \<^verbatim>\<open>code\<close> keeps the value of an earlier
  attempt. In the request below the first attempt runs \<^verbatim>\<open>result = 1 / 0\<close> and faults,
  and the generation call of the second attempt raises \<^verbatim>\<open>Rate limit exceeded\<close>, so
  the second attempt has no code. The prompt of the second attempt pairs the first
  attempt's error with the first attempt's code, as it should; the prompt of the third
  attempt presents the second attempt's error together with the first attempt's code as
  the code that failed. Both retries use the temperature 0.1.
\<close>

theorem stale_code_in_retry_prompt:
  "case analyze (scenario workbook blank_sheet
                   (\<lambda>n. if n = 1 then Inl (Exception ''Rate limit exceeded'')
                        else Inr ''result = 1 / 0'')
                   (\<lambda>n. Inr ''Done.''))
          request ''book.xlsx'' (DictV []) initial_world of
     (r, w') \<Rightarrow>
       map call_code (exec_log w') = [''result = 1 / 0'', ''result = 1 / 0'']
       \<and> length (gen_log w') = 3
       \<and> gen_log w' ! 1
           = ([(''system'', code_generator_system_text),
               (''user'', analysis_prompt request 2 3
                  (error_section_text_1
                   @ ''Code execution error: division by zero'' @ [CHR 0x0A, CHR 0x0A]
                   @ ''Traceback:'' @ [CHR 0x0A] @ ''Traceback (most recent call last):''
                   @ error_section_text_2 @ ''result = 1 / 0'' @ error_section_text_3)
                  ''{}'' ''Unknown'' ''Unknown'' ''data'')], 0.1)
       \<and> gen_log w' ! 2
           = ([(''system'', code_generator_system_text),
               (''user'', analysis_prompt request 3 3
                  (error_section_text_1 @ ''Rate limit exceeded''
                   @ error_section_text_2 @ ''result = 1 / 0'' @ error_section_text_3)
                  ''{}'' ''Unknown'' ''Unknown'' ''data'')], 0.1)"
  by (simp add: eval_simps error_section_def dict_keys_def numeral_2_eq_2 numeral_3_eq_3)

subsection \<open>The exhausted budget\<close>



subsection \<open>The keys of the returned dict\<close>




end
